theory Spec2Isabelle
  imports Main "HOL-Library.AList"
begin

section \<open>Shared data types (package api)\<close>

text \<open>
  A CID and a peer ID are handled through their string form only (\<open>c.String()\<close> is the
  key of every Go map below), so both are strings here. An error value is the text that
  \<open>err.Error()\<close> returns; \<open>None\<close> of \<open>error option\<close> is Go's \<open>nil\<close> error.
\<close>

type_synonym cid = string
type_synonym peer = string
type_synonym error = string

text \<open>
  Modelled from the spec: the declarations of package api (\<open>TrackerStatus\<close>,
  \<open>IPFSPinStatus\<close> with \<open>IsPinned\<close>, \<open>PinInfo\<close>, \<open>CidArg\<close> with \<open>CidArgCid\<close>,
  \<open>CidArgSerial\<close>, \<open>Metric\<close> with \<open>Discard\<close>) are not part of the sources at hand. The
  tracker entry has one of the seven statuses the specification lists, which are the
  seven constants the tracker code refers to; the daemon reports one of Pinned,
  Unpinned, Pinning and Error, of which only Pinned counts as pinned. \<open>CidArgCid\<close>
  makes the pin of a CID with no allocations. The field \<open>Cid\<close> of \<open>PinInfo\<close> is
  written \<open>InfoCid\<close>, to keep it apart from that of \<open>CidArg\<close>.
\<close>

datatype TrackerStatus =
    TrackerStatusPinning
  | TrackerStatusPinned
  | TrackerStatusUnpinning
  | TrackerStatusUnpinned
  | TrackerStatusPinError
  | TrackerStatusUnpinError
  | TrackerStatusRemote

datatype IPFSPinStatus =
    IPFSPinStatusPinned
  | IPFSPinStatusUnpinned
  | IPFSPinStatusPinning
  | IPFSPinStatusError

definition IsPinned :: "IPFSPinStatus \<Rightarrow> bool" where
  "IsPinned ips = (ips = IPFSPinStatusPinned)"

record CidArg =
  Cid :: cid
  Allocations :: "peer list"
  Everywhere :: bool

record PinInfo =
  InfoCid :: cid
  Peer :: peer
  Status :: TrackerStatus
  TS :: int
  Error :: string

definition CidArgCid :: "cid \<Rightarrow> CidArg" where
  "CidArgCid c = \<lparr>Cid = c, Allocations = [], Everywhere = False\<rparr>"

section \<open>The map pin tracker (tracker/map\_pin.go)\<close>

text \<open>
  Durations and instants are counted in nanoseconds, as Go's \<open>time.Duration\<close> is. Every
  operation takes the reading \<open>now\<close> of the clock at which it runs.
\<close>

definition PinningTimeout :: int where
  "PinningTimeout = 15 * 60 * 1000000000"

definition UnpinningTimeout :: int where
  "UnpinningTimeout = 10 * 1000000000"

definition PinQueueSize :: nat where
  "PinQueueSize = 1024"

definition errUnpinningTimeout :: error where
  "errUnpinningTimeout = ''unpinning operation is taking too long''"

definition errPinningTimeout :: error where
  "errPinningTimeout = ''pinning operation is taking too long''"

definition errPinned :: error where
  "errPinned = ''the item is unexpectedly pinned on IPFS''"

definition errUnpinned :: error where
  "errUnpinned = ''the item is unexpectedly not pinned on IPFS''"

definition ErrPinQueueFull :: error where
  "ErrPinQueueFull = ''pin queue is full''"

definition ErrUnpinQueueFull :: error where
  "ErrUnpinQueueFull = ''unpin queue is full''"

text \<open>
  The tracker: the Go map \<open>status\<close> is an association list (its order is the order in
  which \<open>range\<close> visits it), the two buffered channels are the lists of the items sent
  and not yet received, and \<open>chanCap\<close> is the capacity both were made with.
\<close>

record mapPinTracker =
  status :: "(string \<times> PinInfo) list"
  peerID :: peer
  pinCh :: "CidArg list"
  unpinCh :: "CidArg list"
  chanCap :: nat


definition unsafeSet :: "cid \<Rightarrow> TrackerStatus \<Rightarrow> int \<Rightarrow> mapPinTracker \<Rightarrow> mapPinTracker" where
  "unsafeSet c s now mpt =
     (if s = TrackerStatusUnpinned
      then mpt\<lparr>status := AList.delete c (status mpt)\<rparr>
      else mpt\<lparr>status := AList.update c
             \<lparr>InfoCid = c, Peer = peerID mpt, Status = s, TS = now, Error = []\<rparr>
             (status mpt)\<rparr>)"

definition mpt_set :: "cid \<Rightarrow> TrackerStatus \<Rightarrow> int \<Rightarrow> mapPinTracker \<Rightarrow> mapPinTracker" where
  "mpt_set c s now mpt = unsafeSet c s now mpt"

definition unsafeGet :: "cid \<Rightarrow> int \<Rightarrow> mapPinTracker \<Rightarrow> PinInfo" where
  "unsafeGet c now mpt =
     (case map_of (status mpt) c of
        None \<Rightarrow> \<lparr>InfoCid = c, Peer = peerID mpt, Status = TrackerStatusUnpinned,
                  TS = now, Error = []\<rparr>
      | Some p \<Rightarrow> p)"

definition mpt_get :: "cid \<Rightarrow> int \<Rightarrow> mapPinTracker \<Rightarrow> PinInfo" where
  "mpt_get c now mpt = unsafeGet c now mpt"

definition unsafeSetError :: "cid \<Rightarrow> error \<Rightarrow> int \<Rightarrow> mapPinTracker \<Rightarrow> mapPinTracker" where
  "unsafeSetError c err now mpt =
     (case Status (unsafeGet c now mpt) of
        TrackerStatusPinned \<Rightarrow>
          mpt\<lparr>status := AList.update c
            \<lparr>InfoCid = c, Peer = peerID mpt, Status = TrackerStatusPinError,
             TS = now, Error = err\<rparr> (status mpt)\<rparr>
      | TrackerStatusPinning \<Rightarrow>
          mpt\<lparr>status := AList.update c
            \<lparr>InfoCid = c, Peer = peerID mpt, Status = TrackerStatusPinError,
             TS = now, Error = err\<rparr> (status mpt)\<rparr>
      | TrackerStatusPinError \<Rightarrow>
          mpt\<lparr>status := AList.update c
            \<lparr>InfoCid = c, Peer = peerID mpt, Status = TrackerStatusPinError,
             TS = now, Error = err\<rparr> (status mpt)\<rparr>
      | TrackerStatusUnpinned \<Rightarrow>
          mpt\<lparr>status := AList.update c
            \<lparr>InfoCid = c, Peer = peerID mpt, Status = TrackerStatusUnpinError,
             TS = now, Error = err\<rparr> (status mpt)\<rparr>
      | TrackerStatusUnpinning \<Rightarrow>
          mpt\<lparr>status := AList.update c
            \<lparr>InfoCid = c, Peer = peerID mpt, Status = TrackerStatusUnpinError,
             TS = now, Error = err\<rparr> (status mpt)\<rparr>
      | TrackerStatusUnpinError \<Rightarrow>
          mpt\<lparr>status := AList.update c
            \<lparr>InfoCid = c, Peer = peerID mpt, Status = TrackerStatusUnpinError,
             TS = now, Error = err\<rparr> (status mpt)\<rparr>
      | TrackerStatusRemote \<Rightarrow> mpt)"

definition setError :: "cid \<Rightarrow> error \<Rightarrow> int \<Rightarrow> mapPinTracker \<Rightarrow> mapPinTracker" where
  "setError c err now mpt = unsafeSetError c err now mpt"

definition isRemote :: "mapPinTracker \<Rightarrow> CidArg \<Rightarrow> bool" where
  "isRemote mpt c =
     (if Everywhere c then False
      else peerID mpt \<notin> set (Allocations c))"

text \<open>
  \<open>pin\<close> and \<open>unpin\<close> call the daemon over RPC; \<open>rpc\<close> is the error that call returns
  (\<open>None\<close> when it succeeds). Each returns its own error and the tracker it leaves.
\<close>

definition pin :: "CidArg \<Rightarrow> error option \<Rightarrow> int \<Rightarrow> mapPinTracker \<Rightarrow> error option \<times> mapPinTracker" where
  "pin c rpc now mpt =
     (let mpt1 = mpt_set (Cid c) TrackerStatusPinning now mpt in
      case rpc of
        Some err \<Rightarrow> (Some err, setError (Cid c) err now mpt1)
      | None \<Rightarrow> (None, mpt_set (Cid c) TrackerStatusPinned now mpt1))"

definition unpin :: "CidArg \<Rightarrow> error option \<Rightarrow> int \<Rightarrow> mapPinTracker \<Rightarrow> error option \<times> mapPinTracker" where
  "unpin c rpc now mpt =
     (case rpc of
        Some err \<Rightarrow> (Some err, setError (Cid c) err now mpt)
      | None \<Rightarrow> (None, mpt_set (Cid c) TrackerStatusUnpinned now mpt))"

text \<open>
  \<open>Track\<close> and \<open>Untrack\<close>: the \<open>select\<close> with a \<open>default\<close> branch sends when the
  channel's buffer has room and takes the default branch when it is full. \<open>rpc\<close> is the
  outcome of the daemon unpin that \<open>Track\<close> makes for a pin that is remote and pinned
  here.
\<close>

definition Track :: "CidArg \<Rightarrow> error option \<Rightarrow> int \<Rightarrow> mapPinTracker \<Rightarrow> error option \<times> mapPinTracker" where
  "Track c rpc now mpt =
     (if isRemote mpt c then
        (let mpt1 = (if Status (mpt_get (Cid c) now mpt) = TrackerStatusPinned
                     then snd (unpin c rpc now mpt) else mpt)
         in (None, mpt_set (Cid c) TrackerStatusRemote now mpt1))
      else
        (let mpt1 = mpt_set (Cid c) TrackerStatusPinning now mpt in
         if length (pinCh mpt1) < chanCap mpt1
         then (None, mpt1\<lparr>pinCh := pinCh mpt1 @ [c]\<rparr>)
         else (Some ErrPinQueueFull, setError (Cid c) ErrPinQueueFull now mpt1)))"

definition Untrack :: "cid \<Rightarrow> int \<Rightarrow> mapPinTracker \<Rightarrow> error option \<times> mapPinTracker" where
  "Untrack c now mpt =
     (let mpt1 = mpt_set c TrackerStatusUnpinning now mpt in
      if length (unpinCh mpt1) < chanCap mpt1
      then (None, mpt1\<lparr>unpinCh := unpinCh mpt1 @ [CidArgCid c]\<rparr>)
      else (Some ErrUnpinQueueFull, setError c ErrUnpinQueueFull now mpt1))"



definition Status_of :: "cid \<Rightarrow> int \<Rightarrow> mapPinTracker \<Rightarrow> PinInfo" where
  "Status_of c now mpt = mpt_get c now mpt"

definition StatusAll :: "mapPinTracker \<Rightarrow> PinInfo list" where
  "StatusAll mpt = map snd (status mpt)"

text \<open>
  \<open>syncStatus\<close> reconciles the entry of one CID with what the daemon reported and
  returns the entry as it is afterwards.
\<close>

definition syncStatus :: "cid \<Rightarrow> IPFSPinStatus \<Rightarrow> int \<Rightarrow> mapPinTracker \<Rightarrow> PinInfo \<times> mapPinTracker" where
  "syncStatus c ips now mpt =
     (let p = mpt_get c now mpt;
          mpt1 =
            (if IsPinned ips then
               (case Status p of
                  TrackerStatusPinned \<Rightarrow> mpt
                | TrackerStatusPinning \<Rightarrow> mpt_set c TrackerStatusPinned now mpt
                | TrackerStatusPinError \<Rightarrow> mpt_set c TrackerStatusPinned now mpt
                | TrackerStatusUnpinning \<Rightarrow>
                    (if now - TS p > UnpinningTimeout
                     then setError c errUnpinningTimeout now mpt else mpt)
                | TrackerStatusUnpinned \<Rightarrow> setError c errPinned now mpt
                | TrackerStatusUnpinError \<Rightarrow> mpt
                | TrackerStatusRemote \<Rightarrow> mpt)
             else
               (case Status p of
                  TrackerStatusPinned \<Rightarrow> setError c errUnpinned now mpt
                | TrackerStatusPinError \<Rightarrow> mpt
                | TrackerStatusPinning \<Rightarrow>
                    (if now - TS p > PinningTimeout
                     then setError c errPinningTimeout now mpt else mpt)
                | TrackerStatusUnpinning \<Rightarrow> mpt_set c TrackerStatusUnpinned now mpt
                | TrackerStatusUnpinError \<Rightarrow> mpt_set c TrackerStatusUnpinned now mpt
                | TrackerStatusUnpinned \<Rightarrow> mpt
                | TrackerStatusRemote \<Rightarrow> mpt))
      in (mpt_get c now mpt1, mpt1))"

text \<open>
  \<open>Sync\<close>: \<open>res\<close> is the answer of the daemon query \<open>IPFSPinLsCid\<close>, an error or a
  pin status.
\<close>

definition Sync :: "cid \<Rightarrow> error + IPFSPinStatus \<Rightarrow> int \<Rightarrow> mapPinTracker \<Rightarrow> (PinInfo \<times> error option) \<times> mapPinTracker" where
  "Sync c res now mpt =
     (case res of
        Inl err \<Rightarrow> (let mpt1 = setError c err now mpt in ((mpt_get c now mpt1, Some err), mpt1))
      | Inr ips \<Rightarrow> (let (p, mpt1) = syncStatus c ips now mpt in ((p, None), mpt1)))"

text \<open>
  \<open>SyncAll\<close>: \<open>res\<close> is the answer of the bulk query \<open>IPFSPinLs\<close>. When it failed, the
  first loop ranges over the keys of the map, marks each and collects what
  \<open>unsafeGet\<close> then returns. Otherwise the second loop ranges over the entries that
  \<open>StatusAll\<close> returned.
\<close>

fun SyncAll_errLoop :: "string list \<Rightarrow> error \<Rightarrow> int \<Rightarrow> PinInfo list \<Rightarrow> mapPinTracker \<Rightarrow> PinInfo list \<times> mapPinTracker" where
  "SyncAll_errLoop [] err now pInfos mpt = (pInfos, mpt)"
| "SyncAll_errLoop (k # ks) err now pInfos mpt =
     (let mpt1 = unsafeSetError k err now mpt
      in SyncAll_errLoop ks err now (pInfos @ [unsafeGet k now mpt1]) mpt1)"

fun SyncAll_loop :: "PinInfo list \<Rightarrow> (string \<rightharpoonup> IPFSPinStatus) \<Rightarrow> int \<Rightarrow> PinInfo list \<Rightarrow> mapPinTracker \<Rightarrow> PinInfo list \<times> mapPinTracker" where
  "SyncAll_loop [] ipsMap now pInfos mpt = (pInfos, mpt)"
| "SyncAll_loop (pInfoOrig # rest) ipsMap now pInfos mpt =
     (let c = InfoCid pInfoOrig;
          (pInfoNew, mpt1) =
            (case ipsMap c of
               None \<Rightarrow> syncStatus c IPFSPinStatusUnpinned now mpt
             | Some ips \<Rightarrow> syncStatus c ips now mpt)
      in SyncAll_loop rest ipsMap now
           (if Status pInfoOrig \<noteq> Status pInfoNew
               \<or> Status pInfoNew = TrackerStatusUnpinError
               \<or> Status pInfoNew = TrackerStatusPinError
            then pInfos @ [pInfoNew] else pInfos)
           mpt1)"

definition SyncAll :: "error + (string \<rightharpoonup> IPFSPinStatus) \<Rightarrow> int \<Rightarrow> mapPinTracker \<Rightarrow> (PinInfo list \<times> error option) \<times> mapPinTracker" where
  "SyncAll res now mpt =
     (case res of
        Inl err \<Rightarrow>
          (let (pInfos, mpt1) = SyncAll_errLoop (map fst (status mpt)) err now [] mpt
           in ((pInfos, Some err), mpt1))
      | Inr ipsMap \<Rightarrow>
          (let (pInfos, mpt1) = SyncAll_loop (StatusAll mpt) ipsMap now [] mpt
           in ((pInfos, None), mpt1)))"



section \<open>The shared state (state/mapstate.go)\<close>

text \<open>
  Modelled from the spec: \<open>CidArgSerial\<close> and the conversions \<open>ToSerial\<close> and
  \<open>ToCidArg\<close> belong to the missing package api. The serial form holds the CID and the
  peers as strings, which is how they are held here throughout, so both conversions copy
  the fields. The empty \<open>api.CidArg{}\<close> has every field at Go's zero value; its nil CID
  is written \<open>nilCid\<close>, the empty string, which is the text of no CID.
\<close>

record CidArgSerial =
  SerialCid :: string
  SerialAllocations :: "string list"
  SerialEverywhere :: bool

definition ToSerial :: "CidArg \<Rightarrow> CidArgSerial" where
  "ToSerial c =
     \<lparr>SerialCid = Cid c, SerialAllocations = Allocations c, SerialEverywhere = Everywhere c\<rparr>"

definition ToCidArg :: "CidArgSerial \<Rightarrow> CidArg" where
  "ToCidArg cs =
     \<lparr>Cid = SerialCid cs, Allocations = SerialAllocations cs, Everywhere = SerialEverywhere cs\<rparr>"

definition nilCid :: cid where
  "nilCid = []"

definition emptyCidArg :: CidArg where
  "emptyCidArg = \<lparr>Cid = nilCid, Allocations = [], Everywhere = False\<rparr>"

definition MapVersion :: int where
  "MapVersion = 1"

record mapState =
  PinMap :: "(string \<times> CidArgSerial) list"
  Version :: int

definition NewMap :: mapState where
  "NewMap = \<lparr>PinMap = [], Version = 0\<rparr>"

text \<open>
  \<open>Add\<close>, \<open>Rm\<close>, \<open>Get\<close> and \<open>Has\<close> each take the key \<open>c.String()\<close> first, which for a
  nil CID is a nil pointer dereference: the call panics and the state is not touched.
  A panic is the left summand of the result.
\<close>

datatype panic = NilPointerDereference

definition Add :: "CidArg \<Rightarrow> mapState \<Rightarrow> panic + (error option \<times> mapState)" where
  "Add c st =
     (if Cid c = nilCid then Inl NilPointerDereference
      else Inr (None, st\<lparr>PinMap := AList.update (Cid c) (ToSerial c) (PinMap st)\<rparr>))"

definition Rm :: "cid \<Rightarrow> mapState \<Rightarrow> panic + (error option \<times> mapState)" where
  "Rm c st =
     (if c = nilCid then Inl NilPointerDereference
      else Inr (None, st\<lparr>PinMap := AList.delete c (PinMap st)\<rparr>))"

definition Get :: "cid \<Rightarrow> mapState \<Rightarrow> panic + CidArg" where
  "Get c st =
     (if c = nilCid then Inl NilPointerDereference
      else (case map_of (PinMap st) c of
              None \<Rightarrow> Inr emptyCidArg
            | Some cargs \<Rightarrow> Inr (ToCidArg cargs)))"

definition Has :: "cid \<Rightarrow> mapState \<Rightarrow> panic + bool" where
  "Has c st =
     (if c = nilCid then Inl NilPointerDereference
      else Inr (map_of (PinMap st) c \<noteq> None))"

definition List_pins :: "mapState \<Rightarrow> CidArg list" where
  "List_pins st = map (\<lambda>kv. ToCidArg (snd kv)) (PinMap st)"

section \<open>Committing to the log (cluster/peerutils.go)\<close>

text \<open>
  What the consensus layer and the network answer in one pass of the retry loop:
  \<open>leaderRes\<close> is what \<open>Leader()\<close> returns, \<open>waitRes\<close> the error of \<open>WaitForLeader\<close>
  (asked only when \<open>Leader()\<close> failed), \<open>callRes\<close> the error of the RPC to the leader and
  \<open>commitRes\<close> the error of \<open>CommitOp\<close>. The trace records what a pass does that can
  be seen from outside: the debug line at its head, an RPC, a commit, a sleep (in
  milliseconds).
\<close>

datatype LogOpType = LogOpPin | LogOpUnpin | LogOpAddPeer | LogOpRmPeer

record attempt =
  leaderRes :: "peer \<times> error option"
  waitRes :: "error option"
  callRes :: "error option"
  commitRes :: "error option"

datatype event =
    Attempt nat
  | RPCCall peer string
  | CommitOp LogOpType cid
  | Sleep nat

definition CommitRetries :: int where
  "CommitRetries = 2"

definition redirectToLeader :: "peer \<Rightarrow> string \<Rightarrow> attempt \<Rightarrow> (bool \<times> error option) \<times> event list" where
  "redirectToLeader host method a =
     (let leader = fst (leaderRes a) in
      if snd (leaderRes a) \<noteq> None \<and> waitRes a \<noteq> None then ((False, waitRes a), [])
      else if leader = host then ((False, None), [])
      else ((True, callRes a), [RPCCall leader method]))"

text \<open>
  The loop of \<open>logOpCid\<close>, from pass \<open>i\<close> on: \<open>env i\<close> is what pass \<open>i\<close> is answered,
  \<open>finalErr\<close> the error kept so far and \<open>tr\<close> the trace so far.
\<close>

function logOpCid_loop :: "nat \<Rightarrow> int \<Rightarrow> string \<Rightarrow> LogOpType \<Rightarrow> CidArg \<Rightarrow> peer \<Rightarrow> (nat \<Rightarrow> attempt) \<Rightarrow> error option \<Rightarrow> event list \<Rightarrow> error option \<times> event list" where
  "logOpCid_loop i retries rpcOp opType carg host env finalErr tr =
     (if int i < retries then
        (let a = env i;
             r = redirectToLeader host rpcOp a;
             tr1 = tr @ [Attempt i] @ snd r
         in if snd (fst r) \<noteq> None
            then logOpCid_loop (Suc i) retries rpcOp opType carg host env (snd (fst r)) tr1
            else if fst (fst r) then (None, tr1)
            else if commitRes a \<noteq> None
            then logOpCid_loop (Suc i) retries rpcOp opType carg host env (commitRes a)
                   (tr1 @ [CommitOp opType (Cid carg), Sleep 200])
            else (None, tr1 @ [CommitOp opType (Cid carg)]))
      else (finalErr, tr))"
  by pat_completeness auto
termination
  by (relation "measure (\<lambda>(i, retries, _). nat (retries - int i))") auto

definition logOpCid :: "string \<Rightarrow> LogOpType \<Rightarrow> CidArg \<Rightarrow> int \<Rightarrow> peer \<Rightarrow> (nat \<Rightarrow> attempt) \<Rightarrow> error option \<times> event list" where
  "logOpCid rpcOp opType carg retries host env =
     logOpCid_loop 0 retries rpcOp opType carg host env None []"

definition LogPin :: "CidArg \<Rightarrow> int \<Rightarrow> peer \<Rightarrow> (nat \<Rightarrow> attempt) \<Rightarrow> error option \<times> event list" where
  "LogPin c retries host env = logOpCid ''ConsensusLogPin'' LogOpPin c retries host env"

definition LogUnpin :: "CidArg \<Rightarrow> int \<Rightarrow> peer \<Rightarrow> (nat \<Rightarrow> attempt) \<Rightarrow> error option \<times> event list" where
  "LogUnpin c retries host env = logOpCid ''ConsensusLogUnpin'' LogOpUnpin c retries host env"

section \<open>The numpin allocator (allocator/numpin.go)\<close>

text \<open>
  Modelled from the spec: \<open>Metric\<close> and its method \<open>Discard\<close> belong to the missing
  package api. A metric has a name, a value, a validity flag and the instant at which it
  expires; it is discarded when it is not valid or when that instant has passed.
\<close>

record Metric =
  Name :: string
  Value :: string
  Expire :: int
  Valid :: bool

definition Expired :: "int \<Rightarrow> Metric \<Rightarrow> bool" where
  "Expired now v = (Expire v < now)"

definition Discard :: "int \<Rightarrow> Metric \<Rightarrow> bool" where
  "Discard now v = (\<not> Valid v \<or> Expired now v)"

definition NumpinMetricName :: string where
  "NumpinMetricName = ''numpin''"

text \<open>
  \<open>strconv.Atoi\<close> of Go's library, for a 64-bit \<open>int\<close>: an optional sign, then one or
  more decimal digits, and a value that fits.
\<close>

definition digit :: "char \<Rightarrow> int option" where
  "digit ch =
     (if ch = CHR ''0'' then Some 0 else if ch = CHR ''1'' then Some 1
      else if ch = CHR ''2'' then Some 2 else if ch = CHR ''3'' then Some 3
      else if ch = CHR ''4'' then Some 4 else if ch = CHR ''5'' then Some 5
      else if ch = CHR ''6'' then Some 6 else if ch = CHR ''7'' then Some 7
      else if ch = CHR ''8'' then Some 8 else if ch = CHR ''9'' then Some 9
      else None)"

fun parseDigits :: "string \<Rightarrow> int \<Rightarrow> int option" where
  "parseDigits [] acc = Some acc"
| "parseDigits (ch # rest) acc =
     (case digit ch of
        None \<Rightarrow> None
      | Some d \<Rightarrow> parseDigits rest (10 * acc + d))"

definition maxInt64 :: int where
  "maxInt64 = 9223372036854775807"

definition Atoi :: "string \<Rightarrow> int option" where
  "Atoi s =
     (case s of
        [] \<Rightarrow> None
      | ch # rest \<Rightarrow>
          (let neg = (ch = CHR ''-'');
               ds = (if ch = CHR ''+'' \<or> ch = CHR ''-'' then rest else s)
           in if ds = [] then None
              else (case parseDigits ds 0 of
                      None \<Rightarrow> None
                    | Some n \<Rightarrow>
                        (if neg then (if maxInt64 + 1 < n then None else Some (- n))
                         else (if maxInt64 < n then None else Some n)))))"

text \<open>
  The sorter: the peers that were kept and the map from each to its pin count. The
  candidates map is an association list in the order \<open>range\<close> visits it.
\<close>

record metricsSorter =
  sorterPeers :: "peer list"
  sorterM :: "(peer \<times> int) list"

fun newMetricsSorter_loop :: "(peer \<times> Metric) list \<Rightarrow> int \<Rightarrow> metricsSorter \<Rightarrow> metricsSorter" where
  "newMetricsSorter_loop [] now s = s"
| "newMetricsSorter_loop ((k, v) # rest) now s =
     (if Name v \<noteq> NumpinMetricName \<or> Discard now v then newMetricsSorter_loop rest now s
      else (case Atoi (Value v) of
              None \<Rightarrow> newMetricsSorter_loop rest now s
            | Some val \<Rightarrow>
                newMetricsSorter_loop rest now
                  \<lparr>sorterPeers = sorterPeers s @ [k],
                   sorterM = AList.update k val (sorterM s)\<rparr>))"

definition newMetricsSorter :: "(peer \<times> Metric) list \<Rightarrow> int \<Rightarrow> metricsSorter" where
  "newMetricsSorter m now = newMetricsSorter_loop m now \<lparr>sorterPeers = [], sorterM = []\<rparr>"

text \<open>
  \<open>Less\<close> compares the counts that the map \<open>m\<close> holds for the peers at two positions
  (a Go map yields 0 for a key it lacks); \<open>sorterKey\<close> is that count, the key by which
  \<open>sort.Sort\<close> orders the peers. \<open>sort.Sort\<close> is Go's library sort, which is not stable:
  it is the parameter \<open>srt\<close>, a function that sorts a list by a key, and \<open>sorts\<close> says
  what the library promises of it.
\<close>

definition sorterKey :: "metricsSorter \<Rightarrow> peer \<Rightarrow> int" where
  "sorterKey s p = (case map_of (sorterM s) p of None \<Rightarrow> 0 | Some x \<Rightarrow> x)"

definition sorts :: "((peer \<Rightarrow> int) \<Rightarrow> peer list \<Rightarrow> peer list) \<Rightarrow> bool" where
  "sorts srt =
     (\<forall>f xs. set (srt f xs) = set xs \<and> length (srt f xs) = length xs
              \<and> sorted (map f (srt f xs)))"

definition Allocate :: "((peer \<Rightarrow> int) \<Rightarrow> peer list \<Rightarrow> peer list) \<Rightarrow> cid \<Rightarrow> (peer \<times> Metric) list \<Rightarrow> (peer \<times> Metric) list \<Rightarrow> int \<Rightarrow> peer list \<times> error option" where
  "Allocate srt c current candidates now =
     (let numpins = newMetricsSorter candidates now
      in (srt (sorterKey numpins) (sorterPeers numpins), None))"

section \<open>The peer manager (peer\_manager.go)\<close>

text \<open>
  A multiaddress is the list of its components, each a protocol name and a value.
  \<open>ValueForProtocol\<close> and \<open>Decapsulate\<close> are those of the multiaddr library: the value of
  the first component of a protocol, and the address cut before the last place where
  the given component stands. The base-58 decoder of peer IDs is the parameter \<open>dec\<close>.
\<close>

type_synonym multiaddr = "(string \<times> string) list"

definition errProtocolNotFound :: error where
  "errProtocolNotFound = ''protocol not found in multiaddr''"

definition ValueForProtocol :: "multiaddr \<Rightarrow> string \<Rightarrow> error + string" where
  "ValueForProtocol addr proto =
     (case map_of addr proto of
        None \<Rightarrow> Inl errProtocolNotFound
      | Some v \<Rightarrow> Inr v)"

definition Decapsulate :: "multiaddr \<Rightarrow> string \<times> string \<Rightarrow> multiaddr" where
  "Decapsulate addr part =
     (if part \<in> set addr
      then rev (tl (dropWhile (\<lambda>x. x \<noteq> part) (rev addr)))
      else addr)"

definition multiaddrSplit :: "(string \<Rightarrow> error + peer) \<Rightarrow> multiaddr \<Rightarrow> error + (peer \<times> multiaddr)" where
  "multiaddrSplit dec addr =
     (case ValueForProtocol addr ''ipfs'' of
        Inl err \<Rightarrow> Inl err
      | Inr pid \<Rightarrow>
          (let decapAddr = Decapsulate addr (''ipfs'', pid) in
           case dec pid of
             Inl err \<Rightarrow> Inl err
           | Inr newID \<Rightarrow> Inr (newID, decapAddr)))"

text \<open>
  Modelled from the spec: the cluster's configuration (\<open>config.addPeer\<close>,
  \<open>config.Save\<close>), its consensus component (\<open>AddPeer\<close>) and the host's peerstore are
  not part of the sources at hand. The configuration keeps the list of peer addresses
  and \<open>Save\<close> persists it at a path; the consensus component, when there is one, keeps
  the peers it was told of; the peerstore keeps each address with its TTL.
\<close>

datatype ttl = PermanentAddrTTL | TempAddrTTL

record Cluster =
  peerSet :: "peer set"
  peerstore :: "(peer \<times> multiaddr \<times> ttl) list"
  configPeers :: "multiaddr list"
  configPath :: string
  consensus :: "peer list option"
  disk :: "(string \<times> multiaddr list) list"

definition Peerstore_AddAddr :: "peer \<Rightarrow> multiaddr \<Rightarrow> ttl \<Rightarrow> Cluster \<Rightarrow> Cluster" where
  "Peerstore_AddAddr p addr t cl = cl\<lparr>peerstore := peerstore cl @ [(p, addr, t)]\<rparr>"

definition config_addPeer :: "multiaddr \<Rightarrow> Cluster \<Rightarrow> Cluster" where
  "config_addPeer addr cl = cl\<lparr>configPeers := configPeers cl @ [addr]\<rparr>"

definition consensus_AddPeer :: "peer \<Rightarrow> Cluster \<Rightarrow> Cluster" where
  "consensus_AddPeer p cl =
     (case consensus cl of
        None \<Rightarrow> cl
      | Some ps \<Rightarrow> cl\<lparr>consensus := Some (ps @ [p])\<rparr>)"

definition config_Save :: "string \<Rightarrow> error option \<Rightarrow> Cluster \<Rightarrow> Cluster" where
  "config_Save path res cl =
     (case res of
        Some err \<Rightarrow> cl
      | None \<Rightarrow> cl\<lparr>disk := AList.update path (configPeers cl) (disk cl)\<rparr>)"

text \<open>
  \<open>addPeer\<close>: \<open>saveRes\<close> is the error of \<open>config.Save\<close>, which is logged and dropped.
  On a failed split the peer ID returned is the empty one.
\<close>

definition addPeer :: "(string \<Rightarrow> error + peer) \<Rightarrow> multiaddr \<Rightarrow> error option \<Rightarrow> Cluster \<Rightarrow> (peer \<times> error option) \<times> Cluster" where
  "addPeer dec addr saveRes cl =
     (case multiaddrSplit dec addr of
        Inl err \<Rightarrow> (([], Some err), cl)
      | Inr (newID, decapAddr) \<Rightarrow>
          (if newID \<in> peerSet cl then ((newID, None), cl)
           else
             (let cl1 = cl\<lparr>peerSet := insert newID (peerSet cl)\<rparr>;
                  cl2 = Peerstore_AddAddr newID decapAddr PermanentAddrTTL cl1;
                  cl3 = config_addPeer addr cl2;
                  cl4 = (if consensus cl3 \<noteq> None then consensus_AddPeer newID cl3 else cl3);
                  cl5 = (if configPath cl4 \<noteq> [] then config_Save (configPath cl4) saveRes cl4
                         else cl4)
              in ((newID, None), cl5))))"

section \<open>Notions in which the properties are stated\<close>

subsection \<open>The status map\<close>

text \<open>The invariant: no entry that the map stores has status Unpinned.\<close>

definition no_unpinned :: "mapPinTracker \<Rightarrow> bool" where
  "no_unpinned mpt = (\<forall>kp \<in> set (status mpt). Status (snd kp) \<noteq> TrackerStatusUnpinned)"

text \<open>
  The tracker's primitives, entry by entry: what \<open>unsafeGet\<close> returns for the entry
  stored under a CID (\<open>None\<close> when there is none), and what \<open>unsafeSet\<close>,
  \<open>unsafeSetError\<close> and \<open>syncStatus\<close> leave stored there. The last is the table of the
  reconciliation, as the code has it. The lemmas on \<open>map_of\<close> below show that each
  primitive changes nothing else.
\<close>

definition entryOrDefault :: "peer \<Rightarrow> cid \<Rightarrow> int \<Rightarrow> PinInfo option \<Rightarrow> PinInfo" where
  "entryOrDefault me c now e =
     (case e of
        None \<Rightarrow> \<lparr>InfoCid = c, Peer = me, Status = TrackerStatusUnpinned, TS = now, Error = []\<rparr>
      | Some p \<Rightarrow> p)"

definition unsafeSet_entry :: "peer \<Rightarrow> cid \<Rightarrow> TrackerStatus \<Rightarrow> int \<Rightarrow> PinInfo option" where
  "unsafeSet_entry me c s now =
     (if s = TrackerStatusUnpinned then None
      else Some \<lparr>InfoCid = c, Peer = me, Status = s, TS = now, Error = []\<rparr>)"

definition unsafeSetError_entry :: "peer \<Rightarrow> cid \<Rightarrow> error \<Rightarrow> int \<Rightarrow> PinInfo option \<Rightarrow> PinInfo option" where
  "unsafeSetError_entry me c err now e =
     (case e of
        None \<Rightarrow>
          Some \<lparr>InfoCid = c, Peer = me, Status = TrackerStatusUnpinError, TS = now, Error = err\<rparr>
      | Some p \<Rightarrow>
          (if Status p = TrackerStatusPinned \<or> Status p = TrackerStatusPinning
              \<or> Status p = TrackerStatusPinError
           then Some \<lparr>InfoCid = c, Peer = me, Status = TrackerStatusPinError, TS = now, Error = err\<rparr>
           else if Status p = TrackerStatusRemote then Some p
           else Some \<lparr>InfoCid = c, Peer = me, Status = TrackerStatusUnpinError, TS = now, Error = err\<rparr>))"

definition syncStatus_entry :: "peer \<Rightarrow> cid \<Rightarrow> IPFSPinStatus \<Rightarrow> int \<Rightarrow> PinInfo option \<Rightarrow> PinInfo option" where
  "syncStatus_entry me c ips now e =
     (let p = entryOrDefault me c now e in
      if IsPinned ips then
        (case Status p of
           TrackerStatusPinned \<Rightarrow> e
         | TrackerStatusPinning \<Rightarrow> unsafeSet_entry me c TrackerStatusPinned now
         | TrackerStatusPinError \<Rightarrow> unsafeSet_entry me c TrackerStatusPinned now
         | TrackerStatusUnpinning \<Rightarrow>
             (if now - TS p > UnpinningTimeout
              then unsafeSetError_entry me c errUnpinningTimeout now e else e)
         | TrackerStatusUnpinned \<Rightarrow> unsafeSetError_entry me c errPinned now e
         | TrackerStatusUnpinError \<Rightarrow> e
         | TrackerStatusRemote \<Rightarrow> e)
      else
        (case Status p of
           TrackerStatusPinned \<Rightarrow> unsafeSetError_entry me c errUnpinned now e
         | TrackerStatusPinError \<Rightarrow> e
         | TrackerStatusPinning \<Rightarrow>
             (if now - TS p > PinningTimeout
              then unsafeSetError_entry me c errPinningTimeout now e else e)
         | TrackerStatusUnpinning \<Rightarrow> None
         | TrackerStatusUnpinError \<Rightarrow> None
         | TrackerStatusUnpinned \<Rightarrow> e
         | TrackerStatusRemote \<Rightarrow> e))"

definition ipsOf :: "(string \<rightharpoonup> IPFSPinStatus) \<Rightarrow> cid \<Rightarrow> IPFSPinStatus" where
  "ipsOf ipsMap c = (case ipsMap c of None \<Rightarrow> IPFSPinStatusUnpinned | Some ips \<Rightarrow> ips)"

text \<open>
  Whether \<open>SyncAll\<close> reports an entry: its status changed, or it ends in an error state.
\<close>

definition reported :: "PinInfo \<Rightarrow> PinInfo \<Rightarrow> bool" where
  "reported pOrig pNew =
     (Status pOrig \<noteq> Status pNew \<or> Status pNew = TrackerStatusUnpinError
      \<or> Status pNew = TrackerStatusPinError)"

text \<open>
  The status map is well formed when no key occurs twice, as in a Go map, and every
  entry stands under the key of its own CID, as every entry written by the tracker does.
\<close>

definition wf_status :: "mapPinTracker \<Rightarrow> bool" where
  "wf_status mpt =
     (distinct (map fst (status mpt))
      \<and> (\<forall>kp \<in> set (status mpt). InfoCid (snd kp) = fst kp))"

text \<open>
  Marking an error "of the appropriate polarity", in the words of the specification: the
  pin-side statuses become PinError, the unpin-side ones UnpinError. \<open>markedEntry\<close> is
  the entry that the code leaves: a Remote entry stays as it is.
\<close>

definition errorPolarity :: "TrackerStatus \<Rightarrow> TrackerStatus" where
  "errorPolarity s =
     (case s of
        TrackerStatusPinned \<Rightarrow> TrackerStatusPinError
      | TrackerStatusPinning \<Rightarrow> TrackerStatusPinError
      | TrackerStatusPinError \<Rightarrow> TrackerStatusPinError
      | TrackerStatusUnpinned \<Rightarrow> TrackerStatusUnpinError
      | TrackerStatusUnpinning \<Rightarrow> TrackerStatusUnpinError
      | TrackerStatusUnpinError \<Rightarrow> TrackerStatusUnpinError
      | TrackerStatusRemote \<Rightarrow> TrackerStatusRemote)"

definition markedEntry :: "peer \<Rightarrow> error \<Rightarrow> int \<Rightarrow> cid \<Rightarrow> PinInfo \<Rightarrow> PinInfo" where
  "markedEntry me err now k p =
     (if Status p = TrackerStatusRemote then p
      else \<lparr>InfoCid = k, Peer = me, Status = errorPolarity (Status p), TS = now, Error = err\<rparr>)"

subsection \<open>The passes of the retry loop\<close>

text \<open>
  One pass of the loop, seen from outside: whether it succeeds (the operation was
  redirected to the leader without error, or committed here), the error it leaves in
  \<open>finalErr\<close> when it fails, whether it fails in the local commit, and the events it
  adds to the trace. \<open>takeUntil\<close> keeps a list up to and with the first element that
  satisfies a predicate: applied to the passes \<open>0, 1, \<dots>\<close> below \<open>CommitRetries\<close> it gives
  the passes that run.
\<close>

definition passOk :: "peer \<Rightarrow> string \<Rightarrow> attempt \<Rightarrow> bool" where
  "passOk host rpcOp a =
     (snd (fst (redirectToLeader host rpcOp a)) = None
      \<and> (fst (fst (redirectToLeader host rpcOp a)) \<or> commitRes a = None))"

definition passErr :: "peer \<Rightarrow> string \<Rightarrow> attempt \<Rightarrow> error option" where
  "passErr host rpcOp a =
     (if snd (fst (redirectToLeader host rpcOp a)) \<noteq> None
      then snd (fst (redirectToLeader host rpcOp a))
      else commitRes a)"

definition commitFails :: "peer \<Rightarrow> string \<Rightarrow> attempt \<Rightarrow> bool" where
  "commitFails host rpcOp a =
     (fst (redirectToLeader host rpcOp a) = (False, None) \<and> commitRes a \<noteq> None)"

definition passEvents :: "string \<Rightarrow> LogOpType \<Rightarrow> CidArg \<Rightarrow> peer \<Rightarrow> (nat \<Rightarrow> attempt) \<Rightarrow> nat \<Rightarrow> event list" where
  "passEvents rpcOp opType carg host env i =
     [Attempt i] @ snd (redirectToLeader host rpcOp (env i))
     @ (if fst (redirectToLeader host rpcOp (env i)) = (False, None)
        then (if commitRes (env i) \<noteq> None
              then [CommitOp opType (Cid carg), Sleep 200]
              else [CommitOp opType (Cid carg)])
        else [])"

fun takeUntil :: "('a \<Rightarrow> bool) \<Rightarrow> 'a list \<Rightarrow> 'a list" where
  "takeUntil P [] = []"
| "takeUntil P (x # xs) = (if P x then [x] else x # takeUntil P xs)"

definition passesRun :: "int \<Rightarrow> string \<Rightarrow> peer \<Rightarrow> (nat \<Rightarrow> attempt) \<Rightarrow> nat list" where
  "passesRun retries rpcOp host env =
     takeUntil (\<lambda>k. passOk host rpcOp (env k)) [0..<nat retries]"

fun isAttempt :: "event \<Rightarrow> bool" where
  "isAttempt (Attempt i) = True"
| "isAttempt e = False"

fun isSleep :: "event \<Rightarrow> bool" where
  "isSleep (Sleep n) = True"
| "isSleep e = False"

subsection \<open>Eligible candidates\<close>

text \<open>
  In the words of the specification, a candidate is eligible when it carries a valid,
  unexpired metric named "numpin" whose value parses as an integer.
\<close>

definition eligible :: "int \<Rightarrow> Metric \<Rightarrow> bool" where
  "eligible now v =
     (Valid v \<and> \<not> Expired now v \<and> Name v = ''numpin'' \<and> Atoi (Value v) \<noteq> None)"

section \<open>Example states\<close>


text \<open>
  A tracker of peer A that holds one entry of each kind: c1 Pinned, c2 in PinError, c3 in
  UnpinError, c4 Remote, c5 Pinning and c6 Unpinning.
\<close>

definition mixedTracker :: mapPinTracker where
  "mixedTracker =
     \<lparr>status =
        [(''c1'', \<lparr>InfoCid = ''c1'', Peer = ''A'', Status = TrackerStatusPinned, TS = 1, Error = []\<rparr>),
         (''c2'', \<lparr>InfoCid = ''c2'', Peer = ''A'', Status = TrackerStatusPinError, TS = 2,
                   Error = ''daemon down''\<rparr>),
         (''c3'', \<lparr>InfoCid = ''c3'', Peer = ''A'', Status = TrackerStatusUnpinError, TS = 3,
                   Error = ''daemon down''\<rparr>),
         (''c4'', \<lparr>InfoCid = ''c4'', Peer = ''A'', Status = TrackerStatusRemote, TS = 4, Error = []\<rparr>),
         (''c5'', \<lparr>InfoCid = ''c5'', Peer = ''A'', Status = TrackerStatusPinning, TS = 5, Error = []\<rparr>),
         (''c6'', \<lparr>InfoCid = ''c6'', Peer = ''A'', Status = TrackerStatusUnpinning, TS = 6,
                   Error = []\<rparr>)],
      peerID = ''A'', pinCh = [], unpinCh = [], chanCap = PinQueueSize\<rparr>"

text \<open>A state that holds one pin, of c1, allocated to peer A.\<close>

definition onePinState :: mapState where
  "onePinState =
     \<lparr>PinMap = [(''c1'', \<lparr>SerialCid = ''c1'', SerialAllocations = [''A''],
                           SerialEverywhere = False\<rparr>)],
      Version = 0\<rparr>"

text \<open>
  Answers to a pass on peer A: no leader is known and none appears in time; A leads and
  the commit fails; A leads and the commit succeeds. \<open>flakyCommit\<close> fails the commit
  of pass 0 and lets the later ones succeed.
\<close>

definition noLeader :: attempt where
  "noLeader = \<lparr>leaderRes = ([], Some ''no leader''),
      waitRes = Some ''timed out waiting for leader'', callRes = None, commitRes = None\<rparr>"

definition commitFailed :: attempt where
  "commitFailed = \<lparr>leaderRes = (''A'', None), waitRes = None, callRes = None,
      commitRes = Some ''leadership lost''\<rparr>"

definition commitDone :: attempt where
  "commitDone = \<lparr>leaderRes = (''A'', None), waitRes = None, callRes = None, commitRes = None\<rparr>"

definition flakyCommit :: "nat \<Rightarrow> attempt" where
  "flakyCommit i = (if i = 0 then commitFailed else commitDone)"

text \<open>
  Six candidates at instant 100: B with 12 pins and A with 3, C whose metric has expired,
  D with a metric of another name, E whose value is no number, F whose metric is invalid.
\<close>

definition sixCandidates :: "(peer \<times> Metric) list" where
  "sixCandidates =
     [(''B'', \<lparr>Name = ''numpin'', Value = ''12'', Expire = 110, Valid = True\<rparr>),
      (''A'', \<lparr>Name = ''numpin'', Value = ''3'', Expire = 110, Valid = True\<rparr>),
      (''C'', \<lparr>Name = ''numpin'', Value = ''1'', Expire = 90, Valid = True\<rparr>),
      (''D'', \<lparr>Name = ''disk'', Value = ''2'', Expire = 110, Valid = True\<rparr>),
      (''E'', \<lparr>Name = ''numpin'', Value = ''many'', Expire = 110, Valid = True\<rparr>),
      (''F'', \<lparr>Name = ''numpin'', Value = ''0'', Expire = 110, Valid = False\<rparr>)]"

text \<open>
  A cluster of peers A and B with a configuration file and a consensus component, the
  address of B and the address of a new peer C, and a decoder that accepts every ID.
\<close>

definition twoPeers :: Cluster where
  "twoPeers =
     \<lparr>peerSet = {''A'', ''B''},
      peerstore = [(''B'', [(''ip4'', ''10.0.0.2''), (''tcp'', ''9096'')], PermanentAddrTTL)],
      configPeers = [[(''ip4'', ''10.0.0.2''), (''tcp'', ''9096''), (''ipfs'', ''B'')]],
      configPath = ''service.json'',
      consensus = Some [''B''],
      disk = []\<rparr>"

definition addrB :: multiaddr where
  "addrB = [(''ip4'', ''10.0.0.2''), (''tcp'', ''9096''), (''ipfs'', ''B'')]"

definition addrC :: multiaddr where
  "addrC = [(''ip4'', ''10.0.0.3''), (''tcp'', ''9096''), (''ipfs'', ''C'')]"

definition decodeAny :: "string \<Rightarrow> error + peer" where
  "decodeAny pid = Inr pid"

text \<open>
  A tracker of peer A with queues of capacity 2, both full, that holds a Remote entry
  for c4.
\<close>

definition remoteFullTracker :: mapPinTracker where
  "remoteFullTracker =
     \<lparr>status =
        [(''c4'', \<lparr>InfoCid = ''c4'', Peer = ''A'', Status = TrackerStatusRemote, TS = 4, Error = []\<rparr>)],
      peerID = ''A'',
      pinCh = [CidArgCid ''c1'', CidArgCid ''c2''],
      unpinCh = [CidArgCid ''c5'', CidArgCid ''c6''],
      chanCap = 2\<rparr>"

section \<open>Properties of the tracker's primitives\<close>

lemma map_of_unsafeSet:
  "map_of (status (unsafeSet c s now m)) =
     (if s = TrackerStatusUnpinned then (map_of (status m))(c := None)
      else (map_of (status m))
             (c \<mapsto> \<lparr>InfoCid = c, Peer = peerID m, Status = s, TS = now, Error = []\<rparr>))"
  by (simp add: unsafeSet_def update_conv' delete_conv')

lemma unsafeSet_fields [simp]:
  "peerID (unsafeSet c s now m) = peerID m"
  "pinCh (unsafeSet c s now m) = pinCh m"
  "unpinCh (unsafeSet c s now m) = unpinCh m"
  "chanCap (unsafeSet c s now m) = chanCap m"
  by (simp_all add: unsafeSet_def)

lemma map_of_unsafeSetError:
  "map_of (status (unsafeSetError c err now m)) =
     (map_of (status m))(c := unsafeSetError_entry (peerID m) c err now (map_of (status m) c))"
proof (cases "map_of (status m) c")
  case None
  then show ?thesis
    by (simp add: unsafeSetError_def unsafeGet_def unsafeSetError_entry_def update_conv')
next
  case (Some p)
  then show ?thesis
    by (cases "Status p")
       (auto simp add: unsafeSetError_def unsafeGet_def unsafeSetError_entry_def update_conv')
qed

lemma unsafeSetError_fields [simp]:
  "peerID (unsafeSetError c e now m) = peerID m"
  "pinCh (unsafeSetError c e now m) = pinCh m"
  "unpinCh (unsafeSetError c e now m) = unpinCh m"
  "chanCap (unsafeSetError c e now m) = chanCap m"
  by (simp_all add: unsafeSetError_def split: TrackerStatus.splits)



section \<open>Reconciling an entry that is Unpinned with a daemon that has the content\<close>





lemma map_of_unsafeSet_other:
  "k \<noteq> c \<Longrightarrow> map_of (status (unsafeSet c s now m)) k = map_of (status m) k"
  by (simp add: map_of_unsafeSet)

lemma map_of_unsafeSetError_other:
  "k \<noteq> c \<Longrightarrow> map_of (status (unsafeSetError c err now m)) k = map_of (status m) k"
  by (simp add: map_of_unsafeSetError)

section \<open>A full queue\<close>




section \<open>Recover\<close>




section \<open>Unpinned is never stored\<close>



lemma no_unpinned_queues [simp]:
  "no_unpinned (m\<lparr>pinCh := q\<rparr>) = no_unpinned m"
  "no_unpinned (m\<lparr>unpinCh := q\<rparr>) = no_unpinned m"
  by (simp_all add: no_unpinned_def)






















section \<open>Reconciliation, entry by entry\<close>

lemma unsafeGet_entry:
  "unsafeGet c now m = entryOrDefault (peerID m) c now (map_of (status m) c)"
  by (simp add: unsafeGet_def entryOrDefault_def)

lemma map_of_unsafeSet_entry:
  "map_of (status (unsafeSet c s now m)) = (map_of (status m))(c := unsafeSet_entry (peerID m) c s now)"
  by (simp add: map_of_unsafeSet unsafeSet_entry_def)

lemma syncStatus_fields [simp]:
  "peerID (snd (syncStatus c ips now m)) = peerID m"
  "pinCh (snd (syncStatus c ips now m)) = pinCh m"
  "unpinCh (snd (syncStatus c ips now m)) = unpinCh m"
  "chanCap (snd (syncStatus c ips now m)) = chanCap m"
  by (cases "Status (mpt_get c now m)";
      simp add: syncStatus_def Let_def mpt_set_def setError_def)+

lemma map_of_syncStatus:
  "map_of (status (snd (syncStatus c ips now m))) =
     (map_of (status m))(c := syncStatus_entry (peerID m) c ips now (map_of (status m) c))"
proof -
  have g: "mpt_get c now m = entryOrDefault (peerID m) c now (map_of (status m) c)"
    by (simp add: mpt_get_def unsafeGet_entry)
  show ?thesis
    by (cases "Status (entryOrDefault (peerID m) c now (map_of (status m) c))")
       (simp_all add: syncStatus_def Let_def g syncStatus_entry_def mpt_set_def setError_def
          map_of_unsafeSet_entry map_of_unsafeSetError unsafeSet_entry_def)
qed

lemma fst_syncStatus:
  "fst (syncStatus c ips now m) =
     entryOrDefault (peerID m) c now
       (syncStatus_entry (peerID m) c ips now (map_of (status m) c))"
proof -
  have "fst (syncStatus c ips now m) = unsafeGet c now (snd (syncStatus c ips now m))"
    by (simp add: syncStatus_def Let_def mpt_get_def)
  then show ?thesis
    by (simp add: unsafeGet_entry map_of_syncStatus)
qed

lemma map_of_syncStatus_other:
  "k \<noteq> c \<Longrightarrow> map_of (status (snd (syncStatus c ips now m))) k = map_of (status m) k"
  by (simp add: map_of_syncStatus)


lemma unsafeSetError_entry_Remote:
  "Status p = TrackerStatusRemote \<Longrightarrow> unsafeSetError_entry me c err now (Some p) = Some p"
  by (simp add: unsafeSetError_entry_def)

lemma syncStatus_entry_Remote:
  "Status p = TrackerStatusRemote \<Longrightarrow> syncStatus_entry me c ips now (Some p) = Some p"
  by (simp add: syncStatus_entry_def entryOrDefault_def)

lemma syncStatus_ipsOf:
  "(case ipsMap c of None \<Rightarrow> syncStatus c IPFSPinStatusUnpinned now m
    | Some ips \<Rightarrow> syncStatus c ips now m) = syncStatus c (ipsOf ipsMap c) now m"
  by (simp add: ipsOf_def split: option.splits)

subsection \<open>The two loops of SyncAll\<close>

lemma errLoop_fields [simp]:
  "peerID (snd (SyncAll_errLoop ks err now acc m)) = peerID m"
  "pinCh (snd (SyncAll_errLoop ks err now acc m)) = pinCh m"
  "unpinCh (snd (SyncAll_errLoop ks err now acc m)) = unpinCh m"
  "chanCap (snd (SyncAll_errLoop ks err now acc m)) = chanCap m"
  by (induction ks arbitrary: acc m; simp add: Let_def)+

lemma map_of_errLoop:
  "distinct ks \<Longrightarrow>
   map_of (status (snd (SyncAll_errLoop ks err now acc m))) k =
     (if k \<in> set ks then unsafeSetError_entry (peerID m) k err now (map_of (status m) k)
      else map_of (status m) k)"
proof (induction ks arbitrary: acc m)
  case Nil
  then show ?case by simp
next
  case (Cons a ks)
  then show ?case
    by (auto simp add: Let_def map_of_unsafeSetError)
qed

lemma fst_errLoop:
  "distinct ks \<Longrightarrow>
   fst (SyncAll_errLoop ks err now acc m) =
     acc @ map (\<lambda>k. entryOrDefault (peerID m) k now
                  (unsafeSetError_entry (peerID m) k err now (map_of (status m) k))) ks"
proof (induction ks arbitrary: acc m)
  case Nil
  then show ?case by simp
next
  case (Cons a ks)
  have "map (\<lambda>k. entryOrDefault (peerID m) k now
               (unsafeSetError_entry (peerID m) k err now
                  (map_of (status (unsafeSetError a err now m)) k))) ks
        = map (\<lambda>k. entryOrDefault (peerID m) k now
               (unsafeSetError_entry (peerID m) k err now (map_of (status m) k))) ks"
    using Cons.prems by (intro map_cong) (auto simp add: map_of_unsafeSetError)
  with Cons show ?case
    by (simp add: Let_def unsafeGet_entry map_of_unsafeSetError)
qed

lemma loop_fields [simp]:
  "peerID (snd (SyncAll_loop ps ipsMap now acc m)) = peerID m"
  "pinCh (snd (SyncAll_loop ps ipsMap now acc m)) = pinCh m"
  "unpinCh (snd (SyncAll_loop ps ipsMap now acc m)) = unpinCh m"
  "chanCap (snd (SyncAll_loop ps ipsMap now acc m)) = chanCap m"
  by (induction ps arbitrary: acc m; simp add: Let_def split_beta syncStatus_ipsOf)+

lemma map_of_loop:
  "distinct (map InfoCid ps) \<Longrightarrow>
   map_of (status (snd (SyncAll_loop ps ipsMap now acc m))) k =
     (if k \<in> InfoCid ` set ps
      then syncStatus_entry (peerID m) k (ipsOf ipsMap k) now (map_of (status m) k)
      else map_of (status m) k)"
proof (induction ps arbitrary: acc m)
  case Nil
  then show ?case by simp
next
  case (Cons p ps)
  then show ?case
    by (auto simp add: Let_def split_beta syncStatus_ipsOf map_of_syncStatus)
qed

lemma fst_loop:
  "distinct (map InfoCid ps) \<Longrightarrow>
   fst (SyncAll_loop ps ipsMap now acc m) =
     acc @ map (\<lambda>p. fst (syncStatus (InfoCid p) (ipsOf ipsMap (InfoCid p)) now m))
             (filter (\<lambda>p. reported p
                (fst (syncStatus (InfoCid p) (ipsOf ipsMap (InfoCid p)) now m))) ps)"
proof (induction ps arbitrary: acc m)
  case Nil
  then show ?case by simp
next
  case (Cons p ps)
  let ?m1 = "snd (syncStatus (InfoCid p) (ipsOf ipsMap (InfoCid p)) now m)"
  have same: "fst (syncStatus (InfoCid q) (ipsOf ipsMap (InfoCid q)) now ?m1)
            = fst (syncStatus (InfoCid q) (ipsOf ipsMap (InfoCid q)) now m)"
    if "q \<in> set ps" for q
  proof -
    have "InfoCid q \<in> InfoCid ` set ps" using that by simp
    moreover have "InfoCid p \<notin> InfoCid ` set ps" using Cons.prems by simp
    ultimately have "InfoCid q \<noteq> InfoCid p" by metis
    then show ?thesis by (simp add: fst_syncStatus map_of_syncStatus)
  qed
  have d: "distinct (map InfoCid ps)" using Cons.prems by simp
  have f: "filter (\<lambda>q. reported q
                (fst (syncStatus (InfoCid q) (ipsOf ipsMap (InfoCid q)) now ?m1))) ps
         = filter (\<lambda>q. reported q
                (fst (syncStatus (InfoCid q) (ipsOf ipsMap (InfoCid q)) now m))) ps"
    by (intro filter_cong) (simp_all add: same)
  have mp: "map (\<lambda>q. fst (syncStatus (InfoCid q) (ipsOf ipsMap (InfoCid q)) now ?m1)) xs
          = map (\<lambda>q. fst (syncStatus (InfoCid q) (ipsOf ipsMap (InfoCid q)) now m)) xs"
    if "set xs \<subseteq> set ps" for xs
    using that by (intro map_cong) (auto simp add: same)
  show ?case
    using Cons.IH[OF d, of _ ?m1] f mp[of "filter _ ps"]
    by (simp add: Let_def split_beta syncStatus_ipsOf reported_def)
qed

section \<open>SyncAll\<close>

lemma unsafeSetError_entry_marked:
  "unsafeSetError_entry me k err now (Some p) = Some (markedEntry me err now k p)"
  by (cases "Status p") (simp_all add: unsafeSetError_entry_def markedEntry_def errorPolarity_def)

lemma wf_status_lookup:
  "wf_status m \<Longrightarrow> kp \<in> set (status m) \<Longrightarrow> map_of (status m) (fst kp) = Some (snd kp)"
  by (cases kp) (simp add: wf_status_def)

lemma wf_status_StatusAll:
  "wf_status m \<Longrightarrow> map InfoCid (StatusAll m) = map fst (status m)"
  by (simp add: wf_status_def StatusAll_def)

lemma wf_status_lookup_info:
  assumes "wf_status m" and "p \<in> set (StatusAll m)"
  shows "map_of (status m) (InfoCid p) = Some p"
proof -
  from assms(2) obtain kp where kp: "kp \<in> set (status m)" and p: "p = snd kp"
    by (auto simp add: StatusAll_def)
  have "InfoCid (snd kp) = fst kp" using assms(1) kp by (simp add: wf_status_def)
  then show ?thesis using wf_status_lookup[OF assms(1) kp] p by simp
qed

text \<open>
  Claim C5, as the code has it, for a well-formed status map. When the bulk query
  fails, \<open>SyncAll\<close> returns the error and the list of the entries of all tracked CIDs as
  it leaves them: an entry that is not Remote is marked as an error of the polarity of
  its status, with the error's text, and a Remote entry is left as it was. When the
  query succeeds, the list returned holds, in the order of \<open>StatusAll\<close>, the entry as
  \<open>syncStatus\<close> left it of exactly those tracked CIDs whose status changed or whose
  status is then PinError or UnpinError.
\<close>

theorem SyncAll_returns:
  assumes "wf_status mpt"
  shows "fst (SyncAll (Inl err) now mpt) =
           (map (\<lambda>kp. markedEntry (peerID mpt) err now (fst kp) (snd kp)) (status mpt), Some err)
       \<and> (\<forall>kp \<in> set (status mpt).
             Status_of (fst kp) now (snd (SyncAll (Inl err) now mpt)) =
               markedEntry (peerID mpt) err now (fst kp) (snd kp))
       \<and> fst (SyncAll (Inr ipsMap) now mpt) =
           (map (\<lambda>p. Status_of (InfoCid p) now (snd (SyncAll (Inr ipsMap) now mpt)))
              (filter (\<lambda>p. reported p
                         (Status_of (InfoCid p) now (snd (SyncAll (Inr ipsMap) now mpt))))
                 (StatusAll mpt)), None)
       \<and> (\<forall>p \<in> set (StatusAll mpt).
             Status_of (InfoCid p) now (snd (SyncAll (Inr ipsMap) now mpt)) =
               fst (syncStatus (InfoCid p) (ipsOf ipsMap (InfoCid p)) now mpt))"
proof (intro conjI ballI)
  have d: "distinct (map fst (status mpt))"
    using assms by (simp add: wf_status_def)
  have di: "distinct (map InfoCid (StatusAll mpt))"
    using d wf_status_StatusAll[OF assms] by simp
  have e: "SyncAll (Inl err) now mpt =
      ((fst (SyncAll_errLoop (map fst (status mpt)) err now [] mpt), Some err),
       snd (SyncAll_errLoop (map fst (status mpt)) err now [] mpt))"
    by (simp add: SyncAll_def split_beta)
  have s: "SyncAll (Inr ipsMap) now mpt =
      ((fst (SyncAll_loop (StatusAll mpt) ipsMap now [] mpt), None),
       snd (SyncAll_loop (StatusAll mpt) ipsMap now [] mpt))"
    by (simp add: SyncAll_def split_beta)
  have m: "entryOrDefault (peerID mpt) (fst kp) now
             (unsafeSetError_entry (peerID mpt) (fst kp) err now (map_of (status mpt) (fst kp)))
           = markedEntry (peerID mpt) err now (fst kp) (snd kp)"
    if "kp \<in> set (status mpt)" for kp
    using wf_status_lookup[OF assms that]
    by (simp add: unsafeSetError_entry_marked entryOrDefault_def)
  show "fst (SyncAll (Inl err) now mpt) =
           (map (\<lambda>kp. markedEntry (peerID mpt) err now (fst kp) (snd kp)) (status mpt), Some err)"
    using m by (simp add: e fst_errLoop[OF d] comp_def)
  show "Status_of (fst kp) now (snd (SyncAll (Inl err) now mpt)) =
               markedEntry (peerID mpt) err now (fst kp) (snd kp)"
    if "kp \<in> set (status mpt)" for kp
    using m[OF that] that
    by (simp add: e Status_of_def mpt_get_def unsafeGet_entry map_of_errLoop[OF d])
  have n: "Status_of (InfoCid p) now (snd (SyncAll (Inr ipsMap) now mpt)) =
               fst (syncStatus (InfoCid p) (ipsOf ipsMap (InfoCid p)) now mpt)"
    if "p \<in> set (StatusAll mpt)" for p
    using that
    by (simp add: s Status_of_def mpt_get_def unsafeGet_entry map_of_loop[OF di] fst_syncStatus)
  show "Status_of (InfoCid p) now (snd (SyncAll (Inr ipsMap) now mpt)) =
               fst (syncStatus (InfoCid p) (ipsOf ipsMap (InfoCid p)) now mpt)"
    if "p \<in> set (StatusAll mpt)" for p
    using that by (rule n)
  have f: "filter (\<lambda>p. reported p
                         (Status_of (InfoCid p) now (snd (SyncAll (Inr ipsMap) now mpt))))
                 (StatusAll mpt)
         = filter (\<lambda>p. reported p
                         (fst (syncStatus (InfoCid p) (ipsOf ipsMap (InfoCid p)) now mpt)))
                 (StatusAll mpt)"
    by (intro filter_cong) (simp_all add: n)
  have mp: "map (\<lambda>p. Status_of (InfoCid p) now (snd (SyncAll (Inr ipsMap) now mpt))) xs
          = map (\<lambda>p. fst (syncStatus (InfoCid p) (ipsOf ipsMap (InfoCid p)) now mpt)) xs"
    if "set xs \<subseteq> set (StatusAll mpt)" for xs
    using that by (intro map_cong) (auto simp add: n)
  show "fst (SyncAll (Inr ipsMap) now mpt) =
           (map (\<lambda>p. Status_of (InfoCid p) now (snd (SyncAll (Inr ipsMap) now mpt)))
              (filter (\<lambda>p. reported p
                         (Status_of (InfoCid p) now (snd (SyncAll (Inr ipsMap) now mpt))))
                 (StatusAll mpt)), None)"
    unfolding f
    using mp[of "filter (\<lambda>p. reported p
                         (fst (syncStatus (InfoCid p) (ipsOf ipsMap (InfoCid p)) now mpt)))
                 (StatusAll mpt)"]
    by (simp add: s fst_loop[OF di])
qed


theorem SyncAll_returns_witness:
  "fst (SyncAll (Inl ''daemon down'') 9 mixedTracker) =
     ([\<lparr>InfoCid = ''c1'', Peer = ''A'', Status = TrackerStatusPinError, TS = 9,
        Error = ''daemon down''\<rparr>,
       \<lparr>InfoCid = ''c2'', Peer = ''A'', Status = TrackerStatusPinError, TS = 9,
        Error = ''daemon down''\<rparr>,
       \<lparr>InfoCid = ''c3'', Peer = ''A'', Status = TrackerStatusUnpinError, TS = 9,
        Error = ''daemon down''\<rparr>,
       \<lparr>InfoCid = ''c4'', Peer = ''A'', Status = TrackerStatusRemote, TS = 4, Error = []\<rparr>,
       \<lparr>InfoCid = ''c5'', Peer = ''A'', Status = TrackerStatusPinError, TS = 9,
        Error = ''daemon down''\<rparr>,
       \<lparr>InfoCid = ''c6'', Peer = ''A'', Status = TrackerStatusUnpinError, TS = 9,
        Error = ''daemon down''\<rparr>], Some ''daemon down'')
   \<and> fst (SyncAll (Inr (map_of [(''c1'', IPFSPinStatusPinned), (''c5'', IPFSPinStatusPinned)]))
          9 mixedTracker) =
     ([\<lparr>InfoCid = ''c2'', Peer = ''A'', Status = TrackerStatusPinError, TS = 2,
        Error = ''daemon down''\<rparr>,
       \<lparr>InfoCid = ''c3'', Peer = ''A'', Status = TrackerStatusUnpinned, TS = 9, Error = []\<rparr>,
       \<lparr>InfoCid = ''c5'', Peer = ''A'', Status = TrackerStatusPinned, TS = 9, Error = []\<rparr>,
       \<lparr>InfoCid = ''c6'', Peer = ''A'', Status = TrackerStatusUnpinned, TS = 9, Error = []\<rparr>],
      None)"
proof -
  have wf: "wf_status mixedTracker"
    by (simp add: wf_status_def mixedTracker_def)
  have l: "fst (SyncAll (Inl ''daemon down'') 9 mixedTracker) =
      (map (\<lambda>kp. markedEntry (peerID mixedTracker) ''daemon down'' 9 (fst kp) (snd kp))
         (status mixedTracker), Some ''daemon down'')"
    using SyncAll_returns[OF wf, of "''daemon down''" 9 Map.empty] by simp
  have r: "fst (SyncAll (Inr (map_of [(''c1'', IPFSPinStatusPinned), (''c5'', IPFSPinStatusPinned)]))
          9 mixedTracker) =
     ([\<lparr>InfoCid = ''c2'', Peer = ''A'', Status = TrackerStatusPinError, TS = 2,
        Error = ''daemon down''\<rparr>,
       \<lparr>InfoCid = ''c3'', Peer = ''A'', Status = TrackerStatusUnpinned, TS = 9, Error = []\<rparr>,
       \<lparr>InfoCid = ''c5'', Peer = ''A'', Status = TrackerStatusPinned, TS = 9, Error = []\<rparr>,
       \<lparr>InfoCid = ''c6'', Peer = ''A'', Status = TrackerStatusUnpinned, TS = 9, Error = []\<rparr>],
      None)"
    by code_simp
  show ?thesis
    unfolding l r by code_simp
qed

text \<open>
  The claim as worded fails where it says that every tracked entry is marked as an
  error: after a failed bulk query the Remote entry of c4 is still Remote, with no error.
\<close>

theorem SyncAll_failure_counterexample:
  "map_of (status mixedTracker) ''c4'' =
     Some \<lparr>InfoCid = ''c4'', Peer = ''A'', Status = TrackerStatusRemote, TS = 4, Error = []\<rparr>
   \<and> snd (fst (SyncAll (Inl ''daemon down'') 9 mixedTracker)) = Some ''daemon down''
   \<and> Status_of ''c4'' 9 (snd (SyncAll (Inl ''daemon down'') 9 mixedTracker)) =
     \<lparr>InfoCid = ''c4'', Peer = ''A'', Status = TrackerStatusRemote, TS = 4, Error = []\<rparr>"
  by code_simp

section \<open>Remote entries\<close>

lemma unsafeSetError_Remote:
  "map_of (status m) c = Some p \<Longrightarrow> Status p = TrackerStatusRemote \<Longrightarrow>
   unsafeSetError c err now m = m"
  by (simp add: unsafeSetError_def unsafeGet_def)

lemma syncStatus_Remote:
  "map_of (status m) c = Some p \<Longrightarrow> Status p = TrackerStatusRemote \<Longrightarrow>
   syncStatus c ips now m = (p, m)"
  by (simp add: syncStatus_def mpt_get_def unsafeGet_def Let_def)

lemma errLoop_Remote:
  "map_of (status m) c = Some p \<Longrightarrow> Status p = TrackerStatusRemote \<Longrightarrow>
   map_of (status (snd (SyncAll_errLoop ks err now acc m))) c = Some p"
proof (induction ks arbitrary: acc m)
  case Nil
  then show ?case by simp
next
  case (Cons k ks)
  have "map_of (status (unsafeSetError k err now m)) c = Some p"
    using Cons.prems
    by (auto simp add: map_of_unsafeSetError unsafeSetError_entry_Remote)
  from Cons.IH[OF this Cons.prems(2)] show ?case
    by (simp add: Let_def)
qed

lemma errLoop_acc:
  "set acc \<subseteq> set (fst (SyncAll_errLoop ks err now acc m))"
proof (induction ks arbitrary: acc m)
  case Nil
  then show ?case by simp
next
  case (Cons k ks)
  have "set acc \<subseteq> set (acc @ [unsafeGet k now (unsafeSetError k err now m)])" by auto
  also have "\<dots> \<subseteq> set (fst (SyncAll_errLoop ks err now
        (acc @ [unsafeGet k now (unsafeSetError k err now m)]) (unsafeSetError k err now m)))"
    by (rule Cons.IH)
  finally show ?case by (simp add: Let_def)
qed

lemma errLoop_Remote_listed:
  "c \<in> set ks \<Longrightarrow> map_of (status m) c = Some p \<Longrightarrow> Status p = TrackerStatusRemote \<Longrightarrow>
   p \<in> set (fst (SyncAll_errLoop ks err now acc m))"
proof (induction ks arbitrary: acc m)
  case Nil
  then show ?case by simp
next
  case (Cons k ks)
  have keep: "map_of (status (unsafeSetError k err now m)) c = Some p"
    using Cons.prems(2,3)
    by (auto simp add: map_of_unsafeSetError unsafeSetError_entry_Remote)
  show ?case
  proof (cases "k = c")
    case True
    have "unsafeGet k now (unsafeSetError k err now m) = p"
      using keep True by (simp add: unsafeGet_def)
    then have "p \<in> set (acc @ [unsafeGet k now (unsafeSetError k err now m)])" by simp
    then show ?thesis
      using errLoop_acc[of "acc @ [unsafeGet k now (unsafeSetError k err now m)]" ks err now
          "unsafeSetError k err now m"]
      by (auto simp add: Let_def)
  next
    case False
    then have "c \<in> set ks" using Cons.prems(1) by simp
    from Cons.IH[OF this keep Cons.prems(3)] show ?thesis
      by (simp add: Let_def)
  qed
qed

lemma loop_Remote:
  "map_of (status m) c = Some p \<Longrightarrow> Status p = TrackerStatusRemote \<Longrightarrow>
   map_of (status (snd (SyncAll_loop ps ipsMap now acc m))) c = Some p"
proof (induction ps arbitrary: acc m)
  case Nil
  then show ?case by simp
next
  case (Cons q ps)
  have "map_of (status (snd (syncStatus (InfoCid q) (ipsOf ipsMap (InfoCid q)) now m))) c = Some p"
    using Cons.prems
    by (auto simp add: map_of_syncStatus syncStatus_entry_Remote)
  from Cons.IH[OF this Cons.prems(2)] show ?case
    by (simp add: Let_def split_beta syncStatus_ipsOf)
qed

lemma unpin_other:
  "k \<noteq> Cid ca \<Longrightarrow> map_of (status (snd (unpin ca rpc now m))) k = map_of (status m) k"
  by (simp add: unpin_def mpt_set_def setError_def map_of_unsafeSet_other
      map_of_unsafeSetError_other split: option.splits)

lemma Track_other:
  "k \<noteq> Cid ca \<Longrightarrow> map_of (status (snd (Track ca rpc now m))) k = map_of (status m) k"
  by (simp add: Track_def Let_def mpt_set_def setError_def map_of_unsafeSet_other
      map_of_unsafeSetError_other unpin_other)

lemma Untrack_other:
  "k \<noteq> u \<Longrightarrow> map_of (status (snd (Untrack u now m))) k = map_of (status m) k"
  by (simp add: Untrack_def Let_def mpt_set_def setError_def map_of_unsafeSet_other
      map_of_unsafeSetError_other)

text \<open>
  Claim C10, as the code has it. Let the tracker hold for \<open>c\<close> an entry \<open>p\<close> whose status
  is Remote. Then \<open>setError\<close> leaves the tracker as it is, and so does \<open>Sync\<close> when the
  daemon query fails; \<open>syncStatus\<close>, and so \<open>Sync\<close>, leaves it as it is whatever the
  daemon reports; after \<open>SyncAll\<close>, failed or not, the entry of \<open>c\<close> is still \<open>p\<close>, and
  the list that the failed \<open>SyncAll\<close> returns holds \<open>p\<close> unmarked. \<open>Track\<close> and
  \<open>Untrack\<close> of another CID leave the entry of \<open>c\<close> as it is, also on a full queue. Called
  for \<open>c\<close> itself on a full queue, they have set the entry to Pinning or Unpinning
  before they mark it, so that it ends in PinError or UnpinError.
\<close>

theorem Remote_entry_unchanged:
  assumes "map_of (status mpt) c = Some p" and "Status p = TrackerStatusRemote"
  shows "setError c err now mpt = mpt
       \<and> syncStatus c ips now mpt = (p, mpt)
       \<and> Sync c (Inl err) now mpt = ((p, Some err), mpt)
       \<and> Sync c (Inr ips) now mpt = ((p, None), mpt)
       \<and> map_of (status (snd (SyncAll (Inl err) now mpt))) c = Some p
       \<and> p \<in> set (fst (fst (SyncAll (Inl err) now mpt)))
       \<and> map_of (status (snd (SyncAll (Inr ipsMap) now mpt))) c = Some p
       \<and> (Cid ca \<noteq> c \<longrightarrow> map_of (status (snd (Track ca rpc now mpt))) c = Some p)
       \<and> (u \<noteq> c \<longrightarrow> map_of (status (snd (Untrack u now mpt))) c = Some p)
       \<and> (Cid ca = c \<and> \<not> isRemote mpt ca \<and> length (pinCh mpt) = chanCap mpt \<longrightarrow>
            Status (Status_of c now (snd (Track ca rpc now mpt))) = TrackerStatusPinError)
       \<and> (length (unpinCh mpt) = chanCap mpt \<longrightarrow>
            Status (Status_of c now (snd (Untrack c now mpt))) = TrackerStatusUnpinError)"
proof (intro conjI impI)
  show e: "setError c err now mpt = mpt"
    using assms by (simp add: setError_def unsafeSetError_Remote)
  show s: "syncStatus c ips now mpt = (p, mpt)"
    using assms by (rule syncStatus_Remote)
  show "Sync c (Inl err) now mpt = ((p, Some err), mpt)"
    using assms by (simp add: Sync_def e mpt_get_def unsafeGet_def)
  show "Sync c (Inr ips) now mpt = ((p, None), mpt)"
    by (simp add: Sync_def s)
  show "map_of (status (snd (SyncAll (Inl err) now mpt))) c = Some p"
    using errLoop_Remote[OF assms] by (simp add: SyncAll_def split_beta)
  have "c \<in> set (map fst (status mpt))"
    using assms(1) by (metis map_of_eq_None_iff option.distinct(1) set_map)
  from errLoop_Remote_listed[OF this assms]
  show "p \<in> set (fst (fst (SyncAll (Inl err) now mpt)))"
    by (simp add: SyncAll_def split_beta)
  show "map_of (status (snd (SyncAll (Inr ipsMap) now mpt))) c = Some p"
    using loop_Remote[OF assms] by (simp add: SyncAll_def split_beta)
  show "map_of (status (snd (Track ca rpc now mpt))) c = Some p" if "Cid ca \<noteq> c"
    using that assms(1) Track_other[of c ca rpc now mpt] by simp
  show "map_of (status (snd (Untrack u now mpt))) c = Some p" if "u \<noteq> c"
    using that assms(1) Untrack_other[of c u now mpt] by simp
  show "Status (Status_of c now (snd (Track ca rpc now mpt))) = TrackerStatusPinError"
    if "Cid ca = c \<and> \<not> isRemote mpt ca \<and> length (pinCh mpt) = chanCap mpt"
    using that
    by (simp add: Track_def Let_def mpt_set_def setError_def Status_of_def mpt_get_def
        unsafeGet_def map_of_unsafeSetError map_of_unsafeSet unsafeSetError_entry_def)
  show "Status (Status_of c now (snd (Untrack c now mpt))) = TrackerStatusUnpinError"
    if "length (unpinCh mpt) = chanCap mpt"
    using that
    by (simp add: Untrack_def Let_def mpt_set_def setError_def Status_of_def mpt_get_def
        unsafeGet_def map_of_unsafeSetError map_of_unsafeSet unsafeSetError_entry_def)
qed

theorem Remote_entry_unchanged_witness:
  "setError ''c4'' ''daemon down'' 9 mixedTracker = mixedTracker
   \<and> syncStatus ''c4'' IPFSPinStatusPinned 9 mixedTracker =
       (\<lparr>InfoCid = ''c4'', Peer = ''A'', Status = TrackerStatusRemote, TS = 4, Error = []\<rparr>,
        mixedTracker)
   \<and> Sync ''c4'' (Inl ''daemon down'') 9 mixedTracker =
       ((\<lparr>InfoCid = ''c4'', Peer = ''A'', Status = TrackerStatusRemote, TS = 4, Error = []\<rparr>,
         Some ''daemon down''), mixedTracker)
   \<and> map_of (status (snd (SyncAll (Inl ''daemon down'') 9 mixedTracker))) ''c4'' =
       Some \<lparr>InfoCid = ''c4'', Peer = ''A'', Status = TrackerStatusRemote, TS = 4, Error = []\<rparr>"
proof -
  have h1: "map_of (status mixedTracker) ''c4'' =
      Some \<lparr>InfoCid = ''c4'', Peer = ''A'', Status = TrackerStatusRemote, TS = 4, Error = []\<rparr>"
    by (simp add: mixedTracker_def)
  have h2: "Status \<lparr>InfoCid = ''c4'', Peer = ''A'', Status = TrackerStatusRemote, TS = 4,
      Error = []\<rparr> = TrackerStatusRemote"
    by simp
  show ?thesis
    using Remote_entry_unchanged[OF h1 h2, of "''daemon down''" 9 IPFSPinStatusPinned Map.empty
        "CidArgCid ''c1''" None "''c1''"]
    by simp
qed

text \<open>
  The claim as worded fails for the queue-full paths: \<open>Track\<close>, on a full pin queue, of a
  pin for everywhere takes the Remote entry of c4 to PinError, and \<open>Untrack\<close>, on a full
  unpin queue, takes it to UnpinError.
\<close>

theorem Remote_queue_full_counterexample:
  "map_of (status remoteFullTracker) ''c4'' =
     Some \<lparr>InfoCid = ''c4'', Peer = ''A'', Status = TrackerStatusRemote, TS = 4, Error = []\<rparr>
   \<and> length (pinCh remoteFullTracker) = chanCap remoteFullTracker
   \<and> length (unpinCh remoteFullTracker) = chanCap remoteFullTracker
   \<and> Track \<lparr>Cid = ''c4'', Allocations = [], Everywhere = True\<rparr> None 9 remoteFullTracker =
       (Some ''pin queue is full'',
        remoteFullTracker\<lparr>status :=
          [(''c4'', \<lparr>InfoCid = ''c4'', Peer = ''A'', Status = TrackerStatusPinError, TS = 9,
                    Error = ''pin queue is full''\<rparr>)]\<rparr>)
   \<and> Untrack ''c4'' 9 remoteFullTracker =
       (Some ''unpin queue is full'',
        remoteFullTracker\<lparr>status :=
          [(''c4'', \<lparr>InfoCid = ''c4'', Peer = ''A'', Status = TrackerStatusUnpinError, TS = 9,
                    Error = ''unpin queue is full''\<rparr>)]\<rparr>)"
  by (simp add: remoteFullTracker_def Track_def Untrack_def isRemote_def mpt_set_def unsafeSet_def
      setError_def unsafeSetError_def unsafeGet_def ErrPinQueueFull_def ErrUnpinQueueFull_def)

section \<open>The shared state\<close>

lemma ToCidArg_ToSerial [simp]: "ToCidArg (ToSerial c) = c"
  by (simp add: ToCidArg_def ToSerial_def)

text \<open>
  Claim C6. For a record whose CID is not nil, \<open>Add\<close> returns no error and stores the
  record under the key of its CID whatever the state held there, so that \<open>Get\<close> then
  returns it, and the entries of the other CIDs stay; applied a second time it gives the
  same state again. \<open>Rm\<close> of a CID that the state does not hold returns no error and
  leaves the state as it is, and \<open>Get\<close> of such a CID returns the empty record. On a nil
  CID each of the four operations panics.
\<close>

theorem State_Add_Rm_Get:
  "(Cid c \<noteq> nilCid \<longrightarrow>
      (\<exists>st1. Add c st = Inr (None, st1)
         \<and> Get (Cid c) st1 = Inr c
         \<and> Has (Cid c) st1 = Inr True
         \<and> (\<forall>k'. k' \<noteq> Cid c \<longrightarrow> Get k' st1 = Get k' st)
         \<and> Add c st1 = Add c st))
   \<and> (k \<noteq> nilCid \<and> Has k st = Inr False \<longrightarrow>
        Rm k st = Inr (None, st) \<and> Get k st = Inr emptyCidArg)
   \<and> (Cid c = nilCid \<longrightarrow> Add c st = Inl NilPointerDereference)
   \<and> Rm nilCid st = Inl NilPointerDereference
   \<and> Get nilCid st = Inl NilPointerDereference
   \<and> Has nilCid st = Inl NilPointerDereference"
proof (intro conjI impI)
  assume nn: "Cid c \<noteq> nilCid"
  let ?st1 = "st\<lparr>PinMap := AList.update (Cid c) (ToSerial c) (PinMap st)\<rparr>"
  have a: "Add c st = Inr (None, ?st1)"
    using nn by (simp add: Add_def)
  have g: "Get (Cid c) ?st1 = Inr c"
    using nn by (simp add: Get_def update_conv')
  have h: "Has (Cid c) ?st1 = Inr True"
    using nn by (simp add: Has_def update_conv')
  have o: "\<forall>k'. k' \<noteq> Cid c \<longrightarrow> Get k' ?st1 = Get k' st"
    by (simp add: Get_def update_conv')
  have i: "Add c ?st1 = Add c st"
    using nn by (simp add: Add_def)
  from a g h o i
  show "\<exists>st1. Add c st = Inr (None, st1)
         \<and> Get (Cid c) st1 = Inr c
         \<and> Has (Cid c) st1 = Inr True
         \<and> (\<forall>k'. k' \<noteq> Cid c \<longrightarrow> Get k' st1 = Get k' st)
         \<and> Add c st1 = Add c st"
    by blast
next
  assume ab: "k \<noteq> nilCid \<and> Has k st = Inr False"
  then have "map_of (PinMap st) k = None" by (auto simp add: Has_def split: if_splits)
  then have "k \<notin> fst ` set (PinMap st)" by (simp add: map_of_eq_None_iff)
  then show "Rm k st = Inr (None, st)" using ab by (simp add: Rm_def)
next
  assume ab: "k \<noteq> nilCid \<and> Has k st = Inr False"
  then show "Get k st = Inr emptyCidArg"
    by (auto simp add: Has_def Get_def split: if_splits)
next
  assume "Cid c = nilCid"
  then show "Add c st = Inl NilPointerDereference" by (simp add: Add_def)
next
  show "Rm nilCid st = Inl NilPointerDereference" by (simp add: Rm_def)
  show "Get nilCid st = Inl NilPointerDereference" by (simp add: Get_def)
  show "Has nilCid st = Inl NilPointerDereference" by (simp add: Has_def)
qed

theorem State_Add_Rm_Get_witness:
  "Add \<lparr>Cid = ''c1'', Allocations = [''B''], Everywhere = False\<rparr> onePinState =
     Inr (None, \<lparr>PinMap = [(''c1'', \<lparr>SerialCid = ''c1'', SerialAllocations = [''B''],
                                      SerialEverywhere = False\<rparr>)], Version = 0\<rparr>)
   \<and> Get ''c1'' \<lparr>PinMap = [(''c1'', \<lparr>SerialCid = ''c1'', SerialAllocations = [''B''],
                                      SerialEverywhere = False\<rparr>)], Version = 0\<rparr> =
     Inr \<lparr>Cid = ''c1'', Allocations = [''B''], Everywhere = False\<rparr>
   \<and> Add \<lparr>Cid = ''c1'', Allocations = [''B''], Everywhere = False\<rparr>
        \<lparr>PinMap = [(''c1'', \<lparr>SerialCid = ''c1'', SerialAllocations = [''B''],
                              SerialEverywhere = False\<rparr>)], Version = 0\<rparr> =
     Add \<lparr>Cid = ''c1'', Allocations = [''B''], Everywhere = False\<rparr> onePinState
   \<and> Get ''c1'' onePinState = Inr \<lparr>Cid = ''c1'', Allocations = [''A''], Everywhere = False\<rparr>
   \<and> Has ''c2'' onePinState = Inr False
   \<and> Rm ''c2'' onePinState = Inr (None, onePinState)
   \<and> Get ''c2'' onePinState = Inr \<lparr>Cid = [], Allocations = [], Everywhere = False\<rparr>"
proof -
  have n1: "Cid \<lparr>Cid = ''c1'', Allocations = [''B''], Everywhere = False\<rparr> \<noteq> nilCid"
    by (simp add: nilCid_def)
  have n2: "''c2'' \<noteq> nilCid \<and> Has ''c2'' onePinState = Inr False"
    by (simp add: nilCid_def Has_def onePinState_def)
  have a: "Add \<lparr>Cid = ''c1'', Allocations = [''B''], Everywhere = False\<rparr> onePinState =
     Inr (None, \<lparr>PinMap = [(''c1'', \<lparr>SerialCid = ''c1'', SerialAllocations = [''B''],
                                      SerialEverywhere = False\<rparr>)], Version = 0\<rparr>)"
    by (simp add: Add_def nilCid_def onePinState_def ToSerial_def)
  have g: "Get ''c1'' onePinState =
      Inr \<lparr>Cid = ''c1'', Allocations = [''A''], Everywhere = False\<rparr>"
    by (simp add: Get_def nilCid_def onePinState_def ToCidArg_def)
  from State_Add_Rm_Get[of "\<lparr>Cid = ''c1'', Allocations = [''B''], Everywhere = False\<rparr>"
      onePinState "''c2''"] n1
  obtain st1 where s: "Add \<lparr>Cid = ''c1'', Allocations = [''B''], Everywhere = False\<rparr>
        onePinState = Inr (None, st1)"
      "Get ''c1'' st1 = Inr \<lparr>Cid = ''c1'', Allocations = [''B''], Everywhere = False\<rparr>"
      "Add \<lparr>Cid = ''c1'', Allocations = [''B''], Everywhere = False\<rparr> st1 =
       Add \<lparr>Cid = ''c1'', Allocations = [''B''], Everywhere = False\<rparr> onePinState"
    by auto
  have st1: "st1 = \<lparr>PinMap = [(''c1'', \<lparr>SerialCid = ''c1'', SerialAllocations = [''B''],
                                      SerialEverywhere = False\<rparr>)], Version = 0\<rparr>"
    using s(1) a by simp
  from State_Add_Rm_Get[of "\<lparr>Cid = ''c1'', Allocations = [''B''], Everywhere = False\<rparr>"
      onePinState "''c2''"] n2
  have r: "Rm ''c2'' onePinState = Inr (None, onePinState)
      \<and> Get ''c2'' onePinState = Inr emptyCidArg"
    by blast
  show ?thesis
    using a g n2 r s(2,3) st1 by (simp add: emptyCidArg_def nilCid_def)
qed

section \<open>The retry loop of the log operations\<close>

declare logOpCid_loop.simps [simp del]

lemma takeUntil_Nil_iff [simp]: "takeUntil P xs = [] \<longleftrightarrow> xs = []"
  by (cases xs) simp_all

lemma last_takeUntil_Cons:
  "last (x # takeUntil P xs) = (if xs = [] then x else last (takeUntil P xs))"
  by simp

lemma logOpCid_loop_char:
  "logOpCid_loop i retries rpcOp opType carg host env finalErr tr =
     (let ps = takeUntil (\<lambda>k. passOk host rpcOp (env k)) [i..<nat retries] in
      (if ps = [] then finalErr
       else if passOk host rpcOp (env (last ps)) then None
       else passErr host rpcOp (env (last ps)),
       tr @ concat (map (passEvents rpcOp opType carg host env) ps)))"
proof (induction i retries rpcOp opType carg host env finalErr tr rule: logOpCid_loop.induct)
  case (1 i retries rpcOp opType carg host env finalErr tr)
  show ?case
  proof (cases "int i < retries")
    case False
    then have "[i..<nat retries] = []" by simp
    with False show ?thesis
      by (subst logOpCid_loop.simps) simp
  next
    case True
    then have up: "[i..<nat retries] = i # [Suc i..<nat retries]"
      by (simp add: upt_conv_Cons)
    let ?r = "redirectToLeader host rpcOp (env i)"
    consider (rerr) "snd (fst ?r) \<noteq> None"
      | (redir) "snd (fst ?r) = None" "fst (fst ?r)"
      | (cerr) "snd (fst ?r) = None" "\<not> fst (fst ?r)" "commitRes (env i) \<noteq> None"
      | (cok) "snd (fst ?r) = None" "\<not> fst (fst ?r)" "commitRes (env i) = None"
      by blast
    then show ?thesis
    proof cases
      case rerr
      have nok: "\<not> passOk host rpcOp (env i)" using rerr by (simp add: passOk_def)
      have pe: "passErr host rpcOp (env i) = snd (fst ?r)" using rerr by (simp add: passErr_def)
      have ev: "passEvents rpcOp opType carg host env i = [Attempt i] @ snd ?r"
        using rerr by (auto simp add: passEvents_def prod_eq_iff)
      show ?thesis
        using "1.IH"(1)[OF True refl refl refl rerr] rerr nok pe ev True
        by (subst logOpCid_loop.simps) (simp add: Let_def up)
    next
      case redir
      have ok: "passOk host rpcOp (env i)" using redir by (simp add: passOk_def)
      have ev: "passEvents rpcOp opType carg host env i = [Attempt i] @ snd ?r"
        using redir by (auto simp add: passEvents_def prod_eq_iff)
      show ?thesis
        using redir ok ev True
        by (subst logOpCid_loop.simps) (simp add: Let_def up)
    next
      case cerr
      have nok: "\<not> passOk host rpcOp (env i)" using cerr by (simp add: passOk_def)
      have pe: "passErr host rpcOp (env i) = commitRes (env i)"
        using cerr by (simp add: passErr_def)
      have ev: "passEvents rpcOp opType carg host env i =
          [Attempt i] @ snd ?r @ [CommitOp opType (Cid carg), Sleep 200]"
        using cerr by (auto simp add: passEvents_def prod_eq_iff)
      show ?thesis
        using "1.IH"(2)[OF True refl refl refl _ cerr(2) cerr(3)] cerr nok pe ev True
        by (subst logOpCid_loop.simps) (simp add: Let_def up)
    next
      case cok
      have ok: "passOk host rpcOp (env i)" using cok by (simp add: passOk_def)
      have ev: "passEvents rpcOp opType carg host env i =
          [Attempt i] @ snd ?r @ [CommitOp opType (Cid carg)]"
        using cok by (auto simp add: passEvents_def prod_eq_iff)
      show ?thesis
        using cok ok ev True
        by (subst logOpCid_loop.simps) (simp add: Let_def up)
    qed
  qed
qed


lemma length_takeUntil: "length (takeUntil P xs) \<le> length xs"
  by (induction xs) simp_all

lemma takeUntil_none: "\<forall>x \<in> set xs. \<not> P x \<Longrightarrow> takeUntil P xs = xs"
  by (induction xs) simp_all

lemma takeUntil_first: "\<forall>x \<in> set xs. \<not> P x \<Longrightarrow> P y \<Longrightarrow> takeUntil P (xs @ y # ys) = xs @ [y]"
  by (induction xs) simp_all

lemma upt_split: "j < n \<Longrightarrow> [0..<n] = [0..<j] @ j # [Suc j..<n]"
proof -
  assume a: "j < n"
  have "[0..<j + (n - j)] = [0..<j] @ [j..<j + (n - j)]"
    by (rule upt_add_eq_append) simp
  then have "[0..<n] = [0..<j] @ [j..<n]" using a by simp
  then show ?thesis using a by (simp add: upt_conv_Cons)
qed

lemma passErr_not_None: "\<not> passOk host rpcOp a \<Longrightarrow> passErr host rpcOp a \<noteq> None"
  by (auto simp add: passOk_def passErr_def)

lemma redirectToLeader_events:
  "filter isAttempt (snd (redirectToLeader host rpcOp a)) = []"
  "filter isSleep (snd (redirectToLeader host rpcOp a)) = []"
  by (simp_all add: redirectToLeader_def Let_def)

lemma filter_isAttempt_passEvents:
  "filter isAttempt (passEvents rpcOp opType carg host env i) = [Attempt i]"
  by (simp add: passEvents_def redirectToLeader_events)

lemma filter_isSleep_passEvents:
  "filter isSleep (passEvents rpcOp opType carg host env i) =
     (if commitFails host rpcOp (env i) then [Sleep 200] else [])"
  by (simp add: passEvents_def redirectToLeader_events commitFails_def)

lemma concat_map_if_singleton:
  "concat (map (\<lambda>k. if C k then [s] else []) xs) = map (\<lambda>k. s) (filter C xs)"
  by (induction xs) simp_all

text \<open>
  Claim C7, as the code has it. The passes that run are the passes \<open>0, 1, \<dots>\<close> below
  \<open>CommitRetries\<close> up to and with the first that succeeds: there are at most
  \<open>CommitRetries\<close> of them, each begins with one attempt, and the trace is theirs. A sleep
  of 200 ms follows a pass exactly when its local commit failed; a pass that fails
  earlier, in finding the leader or in the RPC to the leader, is followed by the next
  pass at once. When pass \<open>j\<close> is the first to succeed, the call returns no error after
  pass \<open>j\<close>. When \<open>CommitRetries\<close> is at least 1 and every pass fails, the call returns
  the error of the last pass. \<open>LogPin\<close> and \<open>LogUnpin\<close> are this loop.
\<close>

theorem logOpCid_retries:
  fixes rpcOp opType carg retries host env
  defines "ps \<equiv> passesRun retries rpcOp host env"
    and "r \<equiv> logOpCid rpcOp opType carg retries host env"
  shows "length ps \<le> nat retries
       \<and> snd r = concat (map (passEvents rpcOp opType carg host env) ps)
       \<and> filter isAttempt (snd r) = map Attempt ps
       \<and> filter isSleep (snd r) =
           map (\<lambda>k. Sleep 200) (filter (\<lambda>k. commitFails host rpcOp (env k)) ps)
       \<and> (\<forall>j. j < nat retries \<and> passOk host rpcOp (env j)
               \<and> (\<forall>i<j. \<not> passOk host rpcOp (env i))
             \<longrightarrow> fst r = None \<and> ps = [0..<Suc j])
       \<and> (0 < retries \<and> (\<forall>i<nat retries. \<not> passOk host rpcOp (env i))
             \<longrightarrow> fst r = passErr host rpcOp (env (nat retries - 1)) \<and> fst r \<noteq> None
                 \<and> ps = [0..<nat retries])
       \<and> LogPin carg retries host env = logOpCid ''ConsensusLogPin'' LogOpPin carg retries host env
       \<and> LogUnpin carg retries host env =
           logOpCid ''ConsensusLogUnpin'' LogOpUnpin carg retries host env"
proof -
  have r: "r = (if ps = [] then None
       else if passOk host rpcOp (env (last ps)) then None
       else passErr host rpcOp (env (last ps)),
       concat (map (passEvents rpcOp opType carg host env) ps))"
    by (simp add: r_def ps_def logOpCid_def logOpCid_loop_char passesRun_def Let_def)
  have len: "length ps \<le> nat retries"
    using length_takeUntil[of "\<lambda>k. passOk host rpcOp (env k)" "[0..<nat retries]"]
    by (simp add: ps_def passesRun_def)
  have tr: "snd r = concat (map (passEvents rpcOp opType carg host env) ps)"
    by (simp add: r)
  have att: "filter isAttempt (snd r) = map Attempt ps"
    by (simp add: tr filter_concat comp_def filter_isAttempt_passEvents)
  have sl: "filter isSleep (snd r) =
           map (\<lambda>k. Sleep 200) (filter (\<lambda>k. commitFails host rpcOp (env k)) ps)"
    by (simp add: tr filter_concat comp_def filter_isSleep_passEvents concat_map_if_singleton)
  have first: "fst r = None \<and> ps = [0..<Suc j]"
    if "j < nat retries \<and> passOk host rpcOp (env j) \<and> (\<forall>i<j. \<not> passOk host rpcOp (env i))"
    for j
  proof -
    have "ps = [0..<j] @ [j]"
      using that takeUntil_first[of "[0..<j]" "\<lambda>k. passOk host rpcOp (env k)" j
          "[Suc j..<nat retries]"] upt_split[of j "nat retries"]
      by (simp add: ps_def passesRun_def)
    then show ?thesis using that by (simp add: r)
  qed
  have none: "fst r = passErr host rpcOp (env (nat retries - 1)) \<and> fst r \<noteq> None
                 \<and> ps = [0..<nat retries]"
    if "0 < retries \<and> (\<forall>i<nat retries. \<not> passOk host rpcOp (env i))"
  proof -
    have p: "ps = [0..<nat retries]"
      using that takeUntil_none[of "[0..<nat retries]" "\<lambda>k. passOk host rpcOp (env k)"]
      by (simp add: ps_def passesRun_def)
    have ne: "ps \<noteq> []" using that p by simp
    have l: "last ps = nat retries - 1"
      using that p by (simp add: last_upt)
    have nok: "\<not> passOk host rpcOp (env (nat retries - 1))" using that by simp
    show ?thesis
      using p ne l nok passErr_not_None[OF nok] by (simp add: r)
  qed
  have lp: "LogPin carg retries host env =
      logOpCid ''ConsensusLogPin'' LogOpPin carg retries host env"
    by (simp add: LogPin_def)
  have lu: "LogUnpin carg retries host env =
      logOpCid ''ConsensusLogUnpin'' LogOpUnpin carg retries host env"
    by (simp add: LogUnpin_def)
  from len tr att sl first none lp lu show ?thesis
    by blast
qed



theorem logOpCid_retries_witness:
  "fst (LogPin (CidArgCid ''c1'') CommitRetries ''A'' flakyCommit) = None
   \<and> passesRun CommitRetries ''ConsensusLogPin'' ''A'' flakyCommit = [0, 1]
   \<and> snd (LogPin (CidArgCid ''c1'') CommitRetries ''A'' flakyCommit) =
       [Attempt 0, CommitOp LogOpPin ''c1'', Sleep 200, Attempt 1, CommitOp LogOpPin ''c1'']
   \<and> fst (LogUnpin (CidArgCid ''c1'') CommitRetries ''A'' (\<lambda>i. commitFailed)) =
       Some ''leadership lost''
   \<and> passesRun CommitRetries ''ConsensusLogUnpin'' ''A'' (\<lambda>i. commitFailed) = [0, 1]"
proof -
  have h1: "1 < nat CommitRetries \<and> passOk ''A'' ''ConsensusLogPin'' (flakyCommit 1)
      \<and> (\<forall>i<1. \<not> passOk ''A'' ''ConsensusLogPin'' (flakyCommit i))"
    by (simp add: CommitRetries_def passOk_def redirectToLeader_def flakyCommit_def
        commitFailed_def commitDone_def)
  have h2: "0 < CommitRetries
      \<and> (\<forall>i<nat CommitRetries. \<not> passOk ''A'' ''ConsensusLogUnpin'' ((\<lambda>i. commitFailed) i))"
    by (simp add: CommitRetries_def passOk_def redirectToLeader_def commitFailed_def)
  have e: "passErr ''A'' ''ConsensusLogUnpin'' commitFailed = Some ''leadership lost''"
    by (simp add: passErr_def redirectToLeader_def commitFailed_def)
  have u: "[0..<Suc 1] = [0, 1]" "[0..<nat CommitRetries] = [0, 1]"
    by (simp_all add: CommitRetries_def upt_rec)
  have t: "snd (LogPin (CidArgCid ''c1'') CommitRetries ''A'' flakyCommit) =
       [Attempt 0, CommitOp LogOpPin ''c1'', Sleep 200, Attempt 1, CommitOp LogOpPin ''c1'']"
    by code_simp
  note T1 = logOpCid_retries[where retries = CommitRetries and rpcOp = "''ConsensusLogPin''"
        and host = "''A''" and env = flakyCommit and opType = LogOpPin
        and carg = "CidArgCid ''c1''"]
  note T2 = logOpCid_retries[where retries = CommitRetries and rpcOp = "''ConsensusLogUnpin''"
        and host = "''A''" and env = "\<lambda>i. commitFailed" and opType = LogOpUnpin
        and carg = "CidArgCid ''c1''"]
  have a: "fst (logOpCid ''ConsensusLogPin'' LogOpPin (CidArgCid ''c1'') CommitRetries ''A''
             flakyCommit) = None
      \<and> passesRun CommitRetries ''ConsensusLogPin'' ''A'' flakyCommit = [0..<Suc 1]"
    using T1 h1 by blast
  have b: "fst (logOpCid ''ConsensusLogUnpin'' LogOpUnpin (CidArgCid ''c1'') CommitRetries ''A''
             (\<lambda>i. commitFailed)) = passErr ''A'' ''ConsensusLogUnpin'' commitFailed
      \<and> passesRun CommitRetries ''ConsensusLogUnpin'' ''A'' (\<lambda>i. commitFailed) =
          [0..<nat CommitRetries]"
    using T2 h2 by blast
  show ?thesis
    using a b e u t by (simp add: LogPin_def LogUnpin_def)
qed

text \<open>
  The claim as worded fails where it says that a 200 ms backoff lies between failed
  attempts: when no leader is known and none appears, both attempts fail and the second
  follows the first with no sleep between them.
\<close>

theorem logOpCid_backoff_counterexample:
  "LogPin (CidArgCid ''c1'') CommitRetries ''A'' (\<lambda>i. noLeader) =
     (Some ''timed out waiting for leader'', [Attempt 0, Attempt 1])"
  by code_simp

section \<open>The numpin allocator\<close>

lemma Atoi_examples:
  "Atoi ''12'' = Some 12" "Atoi ''-3'' = Some (- 3)" "Atoi ''+7'' = Some 7"
  "Atoi [] = None" "Atoi ''-'' = None" "Atoi ''many'' = None" "Atoi ''1 '' = None"
  "Atoi ''9223372036854775807'' = Some 9223372036854775807"
  "Atoi ''9223372036854775808'' = None"
  "Atoi ''-9223372036854775808'' = Some (- 9223372036854775808)"
  by (simp_all add: Atoi_def digit_def maxInt64_def)

lemma eligible_iff:
  "eligible now v \<longleftrightarrow>
     \<not> (Name v \<noteq> NumpinMetricName \<or> Discard now v) \<and> Atoi (Value v) \<noteq> None"
  by (auto simp add: eligible_def Discard_def NumpinMetricName_def)

lemma sorterPeers_loop:
  "sorterPeers (newMetricsSorter_loop m now s) =
     sorterPeers s @ map fst (filter (\<lambda>kv. eligible now (snd kv)) m)"
proof (induction m arbitrary: s)
  case Nil
  then show ?case by simp
next
  case (Cons kv m)
  obtain k v where kv: "kv = (k, v)" by (cases kv)
  show ?case
    using Cons.IH
    by (cases "Atoi (Value v)") (auto simp add: kv eligible_iff)
qed

lemma sorterM_loop:
  "distinct (map fst m) \<Longrightarrow> (k, v) \<in> set m \<Longrightarrow> eligible now v \<Longrightarrow>
   map_of (sorterM (newMetricsSorter_loop m now s)) k = Atoi (Value v)"
proof (induction m arbitrary: s)
  case Nil
  then show ?case by simp
next
  case (Cons kv m)
  obtain k' v' where kv: "kv = (k', v')" by (cases kv)
  have keep: "map_of (sorterM (newMetricsSorter_loop m now s')) k = map_of (sorterM s') k"
    if "k \<notin> fst ` set m" for s'
    using that
  proof (induction m arbitrary: s')
    case Nil
    then show ?case by simp
  next
    case (Cons a m)
    obtain a1 a2 where a: "a = (a1, a2)" by (cases a)
    from Cons.prems have ne: "a1 \<noteq> k" and rest: "k \<notin> fst ` set m" by (auto simp add: a)
    show ?case
      using Cons.IH[OF rest] ne
      by (cases "Atoi (Value a2)") (auto simp add: a update_conv')
  qed
  show ?case
  proof (cases "(k, v) = (k', v')")
    case True
    then have notin: "k \<notin> fst ` set m" using Cons.prems(1) by (auto simp add: kv)
    obtain n where n: "Atoi (Value v) = Some n"
      using Cons.prems(3) by (auto simp add: eligible_def)
    show ?thesis
      using True Cons.prems(3) n keep[OF notin]
      by (simp add: kv eligible_iff update_conv')
  next
    case False
    then have "(k, v) \<in> set m" using Cons.prems(2) by (auto simp add: kv)
    moreover have "distinct (map fst m)" using Cons.prems(1) by simp
    ultimately show ?thesis
      using Cons.IH Cons.prems(3)
      by (cases "Atoi (Value v')") (auto simp add: kv)
  qed
qed

text \<open>
  Claim C8. Whatever sort the library supplies, and for a candidates map (no key twice):
  \<open>Allocate\<close> returns no error and a list without repetition whose members are exactly
  the eligible candidates, and the list is in ascending order of the pin count, which for
  each member is the number that its metric's value parses to.
\<close>

theorem Allocate_numpin:
  assumes "sorts srt" and "distinct (map fst candidates)"
  shows "snd (Allocate srt c current candidates now) = None
       \<and> set (fst (Allocate srt c current candidates now)) =
           {p. \<exists>v. (p, v) \<in> set candidates \<and> eligible now v}
       \<and> distinct (fst (Allocate srt c current candidates now))
       \<and> sorted (map (sorterKey (newMetricsSorter candidates now))
                   (fst (Allocate srt c current candidates now)))
       \<and> (\<forall>p v. (p, v) \<in> set candidates \<and> eligible now v \<longrightarrow>
             Atoi (Value v) = Some (sorterKey (newMetricsSorter candidates now) p))"
proof -
  let ?s = "newMetricsSorter candidates now"
  let ?res = "fst (Allocate srt c current candidates now)"
  have res: "?res = srt (sorterKey ?s) (sorterPeers ?s)"
    by (simp add: Allocate_def Let_def)
  have peers: "sorterPeers ?s = map fst (filter (\<lambda>kv. eligible now (snd kv)) candidates)"
    by (simp add: newMetricsSorter_def sorterPeers_loop)
  have srt: "set ?res = set (sorterPeers ?s)" "length ?res = length (sorterPeers ?s)"
    "sorted (map (sorterKey ?s) ?res)"
    using assms(1) by (simp_all add: res sorts_def)
  have dp: "distinct (sorterPeers ?s)"
    unfolding peers using assms(2) by (simp add: distinct_map_filter)
  have "card (set ?res) = length ?res"
    using srt(1,2) dp by (simp add: distinct_card)
  then have d: "distinct ?res" by (simp add: card_distinct)
  have m: "set ?res = {p. \<exists>v. (p, v) \<in> set candidates \<and> eligible now v}"
    unfolding srt(1) peers by force
  have k: "Atoi (Value v) = Some (sorterKey ?s p)"
    if pv: "(p, v) \<in> set candidates \<and> eligible now v" for p v
  proof -
    obtain n where n: "Atoi (Value v) = Some n"
      using pv by (auto simp add: eligible_def)
    have "map_of (sorterM ?s) p = Atoi (Value v)"
      using pv assms(2) by (simp add: newMetricsSorter_def sorterM_loop)
    then show ?thesis using n by (simp add: sorterKey_def)
  qed
  have e: "snd (Allocate srt c current candidates now) = None"
    by (simp add: Allocate_def Let_def)
  from e m d srt(3) k show ?thesis by blast
qed

lemma sorts_sort_key: "sorts sort_key"
  by (simp add: sorts_def)

theorem Allocate_numpin_witness:
  "Allocate sort_key ''c1'' [] sixCandidates 100 = ([''A'', ''B''], None)
   \<and> distinct (fst (Allocate sort_key ''c1'' [] sixCandidates 100))
   \<and> sorted (map (sorterKey (newMetricsSorter sixCandidates 100))
               (fst (Allocate sort_key ''c1'' [] sixCandidates 100)))
   \<and> map (sorterKey (newMetricsSorter sixCandidates 100)) [''A'', ''B''] = [3, 12]"
proof -
  have d: "distinct (map fst sixCandidates)"
    by (simp add: sixCandidates_def)
  have v: "Allocate sort_key ''c1'' [] sixCandidates 100 = ([''A'', ''B''], None)"
    by code_simp
  have k: "map (sorterKey (newMetricsSorter sixCandidates 100)) [''A'', ''B''] = [3, 12]"
    by code_simp
  show ?thesis
    using v k Allocate_numpin[OF sorts_sort_key d, of "''c1''" "[]" 100]
    by simp
qed

section \<open>Adding a peer\<close>

lemma Peerstore_AddAddr_fields [simp]:
  "peerSet (Peerstore_AddAddr p a t cl) = peerSet cl"
  "peerstore (Peerstore_AddAddr p a t cl) = peerstore cl @ [(p, a, t)]"
  "configPeers (Peerstore_AddAddr p a t cl) = configPeers cl"
  "configPath (Peerstore_AddAddr p a t cl) = configPath cl"
  "consensus (Peerstore_AddAddr p a t cl) = consensus cl"
  "disk (Peerstore_AddAddr p a t cl) = disk cl"
  by (simp_all add: Peerstore_AddAddr_def)

lemma config_addPeer_fields [simp]:
  "peerSet (config_addPeer a cl) = peerSet cl"
  "peerstore (config_addPeer a cl) = peerstore cl"
  "configPeers (config_addPeer a cl) = configPeers cl @ [a]"
  "configPath (config_addPeer a cl) = configPath cl"
  "consensus (config_addPeer a cl) = consensus cl"
  "disk (config_addPeer a cl) = disk cl"
  by (simp_all add: config_addPeer_def)

lemma consensus_AddPeer_fields [simp]:
  "peerSet (consensus_AddPeer p cl) = peerSet cl"
  "peerstore (consensus_AddPeer p cl) = peerstore cl"
  "configPeers (consensus_AddPeer p cl) = configPeers cl"
  "configPath (consensus_AddPeer p cl) = configPath cl"
  "consensus (consensus_AddPeer p cl) = map_option (\<lambda>ps. ps @ [p]) (consensus cl)"
  "disk (consensus_AddPeer p cl) = disk cl"
  by (cases "consensus cl"; simp add: consensus_AddPeer_def)+

lemma config_Save_fields [simp]:
  "peerSet (config_Save path res cl) = peerSet cl"
  "peerstore (config_Save path res cl) = peerstore cl"
  "configPeers (config_Save path res cl) = configPeers cl"
  "configPath (config_Save path res cl) = configPath cl"
  "consensus (config_Save path res cl) = consensus cl"
  "disk (config_Save path res cl) =
     (if res = None then AList.update path (configPeers cl) (disk cl) else disk cl)"
  by (cases res; simp add: config_Save_def)+

text \<open>
  Claim C9. When the address splits into a peer ID and a transport address, and the peer
  ID is in the peer set, \<open>addPeer\<close> returns the peer ID with no error and leaves the whole
  cluster state as it is: peer set, peerstore, configuration, what is saved of it, and
  the consensus membership. When the peer ID is new, it enters the peer set, the
  transport address enters the peerstore with the permanent TTL, the address enters the
  configuration's peer list, the consensus component (when there is one) is told of the
  peer, and the configuration is saved when a path is set (an error of the save is
  dropped).
\<close>

theorem addPeer_known_or_new:
  assumes "multiaddrSplit dec addr = Inr (pid, decapAddr)"
  shows "(pid \<in> peerSet cl \<longrightarrow> addPeer dec addr saveRes cl = ((pid, None), cl))
       \<and> (pid \<notin> peerSet cl \<longrightarrow>
            fst (addPeer dec addr saveRes cl) = (pid, None)
          \<and> peerSet (snd (addPeer dec addr saveRes cl)) = insert pid (peerSet cl)
          \<and> peerstore (snd (addPeer dec addr saveRes cl)) =
              peerstore cl @ [(pid, decapAddr, PermanentAddrTTL)]
          \<and> configPeers (snd (addPeer dec addr saveRes cl)) = configPeers cl @ [addr]
          \<and> configPath (snd (addPeer dec addr saveRes cl)) = configPath cl
          \<and> consensus (snd (addPeer dec addr saveRes cl)) =
              map_option (\<lambda>ps. ps @ [pid]) (consensus cl)
          \<and> disk (snd (addPeer dec addr saveRes cl)) =
              (if configPath cl \<noteq> [] \<and> saveRes = None
               then AList.update (configPath cl) (configPeers cl @ [addr]) (disk cl)
               else disk cl))"
proof (intro conjI impI)
  assume "pid \<in> peerSet cl"
  then show "addPeer dec addr saveRes cl = ((pid, None), cl)"
    using assms by (simp add: addPeer_def)
next
  assume new: "pid \<notin> peerSet cl"
  show "fst (addPeer dec addr saveRes cl) = (pid, None)"
    using assms new by (simp add: addPeer_def Let_def)
next
  assume new: "pid \<notin> peerSet cl"
  show "peerSet (snd (addPeer dec addr saveRes cl)) = insert pid (peerSet cl)"
    using assms new by (simp add: addPeer_def Let_def)
next
  assume new: "pid \<notin> peerSet cl"
  show "peerstore (snd (addPeer dec addr saveRes cl)) =
              peerstore cl @ [(pid, decapAddr, PermanentAddrTTL)]"
    using assms new by (simp add: addPeer_def Let_def)
next
  assume new: "pid \<notin> peerSet cl"
  show "configPeers (snd (addPeer dec addr saveRes cl)) = configPeers cl @ [addr]"
    using assms new by (simp add: addPeer_def Let_def)
next
  assume new: "pid \<notin> peerSet cl"
  show "configPath (snd (addPeer dec addr saveRes cl)) = configPath cl"
    using assms new by (simp add: addPeer_def Let_def)
next
  assume new: "pid \<notin> peerSet cl"
  show "consensus (snd (addPeer dec addr saveRes cl)) =
              map_option (\<lambda>ps. ps @ [pid]) (consensus cl)"
    using assms new by (simp add: addPeer_def Let_def)
next
  assume new: "pid \<notin> peerSet cl"
  show "disk (snd (addPeer dec addr saveRes cl)) =
              (if configPath cl \<noteq> [] \<and> saveRes = None
               then AList.update (configPath cl) (configPeers cl @ [addr]) (disk cl)
               else disk cl)"
    using assms new by (simp add: addPeer_def Let_def)
qed

theorem addPeer_known_or_new_witness:
  "multiaddrSplit decodeAny addrB = Inr (''B'', [(''ip4'', ''10.0.0.2''), (''tcp'', ''9096'')])
   \<and> ''B'' \<in> peerSet twoPeers
   \<and> addPeer decodeAny addrB None twoPeers = ((''B'', None), twoPeers)
   \<and> multiaddrSplit decodeAny addrC = Inr (''C'', [(''ip4'', ''10.0.0.3''), (''tcp'', ''9096'')])
   \<and> ''C'' \<notin> peerSet twoPeers
   \<and> fst (addPeer decodeAny addrC None twoPeers) = (''C'', None)
   \<and> peerSet (snd (addPeer decodeAny addrC None twoPeers)) = {''A'', ''B'', ''C''}
   \<and> peerstore (snd (addPeer decodeAny addrC None twoPeers)) =
       [(''B'', [(''ip4'', ''10.0.0.2''), (''tcp'', ''9096'')], PermanentAddrTTL),
        (''C'', [(''ip4'', ''10.0.0.3''), (''tcp'', ''9096'')], PermanentAddrTTL)]
   \<and> consensus (snd (addPeer decodeAny addrC None twoPeers)) = Some [''B'', ''C'']
   \<and> disk (snd (addPeer decodeAny addrC None twoPeers)) =
       [(''service.json'', [addrB, addrC])]"
proof -
  have sb: "multiaddrSplit decodeAny addrB =
      Inr (''B'', [(''ip4'', ''10.0.0.2''), (''tcp'', ''9096'')])"
    by (simp add: multiaddrSplit_def ValueForProtocol_def Decapsulate_def decodeAny_def
        addrB_def)
  have sc: "multiaddrSplit decodeAny addrC =
      Inr (''C'', [(''ip4'', ''10.0.0.3''), (''tcp'', ''9096'')])"
    by (simp add: multiaddrSplit_def ValueForProtocol_def Decapsulate_def decodeAny_def
        addrC_def)
  have inb: "''B'' \<in> peerSet twoPeers" and outc: "''C'' \<notin> peerSet twoPeers"
    by (simp_all add: twoPeers_def)
  have known: "addPeer decodeAny addrB None twoPeers = ((''B'', None), twoPeers)"
    using addPeer_known_or_new[OF sb, of twoPeers None] inb by blast
  have new: "fst (addPeer decodeAny addrC None twoPeers) = (''C'', None)
      \<and> peerSet (snd (addPeer decodeAny addrC None twoPeers)) = insert ''C'' (peerSet twoPeers)
      \<and> peerstore (snd (addPeer decodeAny addrC None twoPeers)) =
          peerstore twoPeers @ [(''C'', [(''ip4'', ''10.0.0.3''), (''tcp'', ''9096'')],
            PermanentAddrTTL)]
      \<and> consensus (snd (addPeer decodeAny addrC None twoPeers)) =
          map_option (\<lambda>ps. ps @ [''C'']) (consensus twoPeers)"
    using addPeer_known_or_new[OF sc, of twoPeers None] outc by blast
  have d: "disk (snd (addPeer decodeAny addrC None twoPeers)) =
       [(''service.json'', [addrB, addrC])]"
    by code_simp
  have t: "insert ''C'' (peerSet twoPeers) = {''A'', ''B'', ''C''}"
    "peerstore twoPeers = [(''B'', [(''ip4'', ''10.0.0.2''), (''tcp'', ''9096'')], PermanentAddrTTL)]"
    "consensus twoPeers = Some [''B'']"
    by (auto simp add: twoPeers_def)
  show ?thesis
    using sb sc inb outc known new d t by simp
qed

end
